theory Spec2Isabelle
  imports Main
begin

text \<open>
  A model of \<open>mongoose-jobqueue.js\<close>: the classes \<open>JobQueueHelper\<close> and \<open>JobQueue\<close>, the
  schema of a job document and the Mongoose calls the queue issues. Each method is a
  function from its arguments and the world before the call to the settled promise
  (\<open>Inl\<close> a rejection, \<open>Inr\<close> a resolution) and the world after it. A storage call is one
  step of the model, as \<open>findOneAndUpdate\<close> is one atomic operation of the store; calls by
  several consumers at once are sequences of such steps and are not modelled further.
  Times are milliseconds since the epoch.
\<close>

section \<open>JavaScript values\<close>

text \<open>
  Payloads and constructor options are JavaScript values. Numbers are modelled as
  integers (seconds, percent, counters); the engine only adds and compares them.
\<close>

datatype jsval =
    JUndefined
  | JNull
  | JBool bool
  | JNum int
  | JStr string
  | JArr "jsval list"
  | JObj "(string \<times> jsval) list"

text \<open>ToBoolean: what \<open>if (x)\<close>, \<open>!x\<close> and \<open>x || y\<close> test.\<close>

fun truthy :: "jsval \<Rightarrow> bool" where
  "truthy JUndefined = False"
| "truthy JNull = False"
| "truthy (JBool b) = b"
| "truthy (JNum n) = (n \<noteq> 0)"
| "truthy (JStr s) = (s \<noteq> [])"
| "truthy (JArr xs) = True"
| "truthy (JObj kvs) = True"

text \<open>
  \<open>arg || fallback\<close> for an optional numeric argument: \<open>None\<close> is an omitted argument
  (\<open>undefined\<close>), and the number 0 is falsy as well.
\<close>

definition js_or :: "int option \<Rightarrow> int \<Rightarrow> int" where
  "js_or arg fallback =
     (case arg of None \<Rightarrow> fallback | Some v \<Rightarrow> if v \<noteq> 0 then v else fallback)"

datatype error =
    NoMongoose
  | NoQueueName
  | EmptyPayloadArray
  | EmptyCreateResult
  | ValidationError
  | CastError
  | StoreError
  | Wrapped error
  | JobNotFound

section \<open>Job documents and the queue object\<close>

text \<open>
  The schema of \<open>JobQueueHelper.buildModel\<close>. \<open>oid\<close> is the document's \<open>_id\<close>; a field
  that is absent from the stored document is \<open>None\<close>.
\<close>

record Job =
  oid :: nat
  payload :: jsval
  visible :: int
  tries :: int
  ack :: "string option"
  deleted :: "int option"
  progress :: "int option"

text \<open>What a call hands back: a live Mongoose document or a plain object.\<close>

datatype handle = Document Job | PlainObject Job

fun job_of :: "handle \<Rightarrow> Job" where
  "job_of (Document j) = j"
| "job_of (PlainObject j) = j"

datatype added = One handle | Many "handle list"

record JobQueueConfigurationObject =
  delay :: int
  visibility :: int
  strictAck :: bool
  maxRetries :: int
  deadQueue :: "string option"
  raw :: bool
  cosmosDb :: bool

text \<open>
  A compiled Mongoose model, identified by the collection it is bound to. In the queue
  object, \<open>deadQueueModel\<close> is the property \<open>this.deadQueue\<close> (\<open>None\<close> for \<open>null\<close>); the
  option of the same name is the field \<open>deadQueue\<close> of the configuration object.
\<close>

datatype Model = Model string

record JobQueue =
  name :: string
  options :: JobQueueConfigurationObject
  queue :: Model
  deadQueueModel :: "Model option"

definition buildModel :: "string \<Rightarrow> Model" where
  "buildModel nm = Model nm"

text \<open>The object literal assigned to \<open>this.options\<close>.\<close>

definition default_options :: JobQueueConfigurationObject where
  "default_options =
     \<lparr>delay = 0, visibility = 30, strictAck = True, maxRetries = 5,
      deadQueue = None, raw = True, cosmosDb = False\<rparr>"

text \<open>The own enumerable properties of an options object, as the spread operator sees them.\<close>

definition properties :: "JobQueueConfigurationObject \<Rightarrow> (string \<rightharpoonup> jsval)" where
  "properties c =
     [''delay'' \<mapsto> JNum (delay c),
      ''visibility'' \<mapsto> JNum (visibility c),
      ''strictAck'' \<mapsto> JBool (strictAck c),
      ''maxRetries'' \<mapsto> JNum (maxRetries c),
      ''deadQueue'' \<mapsto> (case deadQueue c of None \<Rightarrow> JNull | Some s \<Rightarrow> JStr s),
      ''raw'' \<mapsto> JBool (raw c),
      ''cosmosDb'' \<mapsto> JBool (cosmosDb c)]"

text \<open>\<open>{ ...a, ...b }\<close>: the properties of \<open>b\<close> are written last and win.\<close>

definition spread :: "(string \<rightharpoonup> jsval) \<Rightarrow> (string \<rightharpoonup> jsval) \<Rightarrow> (string \<rightharpoonup> jsval)" where
  "spread a b = a ++ b"

text \<open>
  The constructor. \<open>mongoose\<close> tells whether a Mongoose instance was passed. The merged
  object is bound to the parameter \<open>opts\<close> only; \<open>this.options\<close> stays the literal, and
  the dead queue is built from \<open>this.options.deadQueue\<close>.
\<close>

definition constructor :: "bool \<Rightarrow> string \<Rightarrow> (string \<rightharpoonup> jsval) \<Rightarrow> error + JobQueue" where
  "constructor mongoose nm opts =
     (if \<not> mongoose then Inl NoMongoose
      else if nm = [] then Inl NoQueueName
      else
        let this_options = default_options;
            opts' = spread opts (properties this_options)
        in Inr \<lparr>name = nm,
                options = this_options,
                queue = buildModel nm,
                deadQueueModel =
                  (case deadQueue this_options of
                     None \<Rightarrow> None
                   | Some dn \<Rightarrow> if dn \<noteq> [] then Some (buildModel dn) else None)\<rparr>)"

section \<open>The environment: clock, token generator, storage\<close>

text \<open>
  Everything outside the engine. \<open>timeline\<close> gives the successive readings of
  \<open>Date.now()\<close> in milliseconds and \<open>reads\<close> counts the readings taken; \<open>hexes\<close> gives the
  successive results of \<open>crypto.randomBytes(16).toString('hex')\<close> and \<open>draws\<close> counts
  them; \<open>outages\<close> tells which storage calls are rejected by the store and \<open>calls\<close>
  counts the storage calls. \<open>queue_docs\<close> and \<open>dead_docs\<close> are the collections behind
  \<open>this.queue\<close> and \<open>this.deadQueue\<close>, in natural order (Mongoose compiles one model per
  name, so the two models are bound to different collections). \<open>next_oid\<close> is the next
  \<open>_id\<close> the driver hands out.
\<close>

record world =
  timeline :: "nat \<Rightarrow> int"
  reads :: nat
  hexes :: "nat \<Rightarrow> string"
  draws :: nat
  outages :: "nat \<Rightarrow> bool"
  calls :: nat
  next_oid :: nat
  queue_docs :: "Job list"
  dead_docs :: "Job list"

text \<open>
  A \<open>Date\<close> object. \<open>new Date(t)\<close> holds the time value \<open>t\<close> when it lies within
  8.64e15 ms of the epoch and is an Invalid Date otherwise.
\<close>

datatype date = Date int | InvalidDate

definition valid_time :: "int \<Rightarrow> bool" where
  "valid_time t \<longleftrightarrow> - 8640000000000000 \<le> t \<and> t \<le> 8640000000000000"

definition new_Date :: "int \<Rightarrow> date" where
  "new_Date t = (if valid_time t then Date t else InvalidDate)"

text \<open>
  \<open>JobQueueHelper.id\<close>, \<open>now\<close> and \<open>nowPlusSecs\<close>. The clock's own readings are times of
  day, so \<open>new Date()\<close> is a valid date and \<open>now\<close> hands out its time value.
\<close>

definition id_hex :: "world \<Rightarrow> string \<times> world" where
  "id_hex w = (hexes w (draws w), w\<lparr>draws := Suc (draws w)\<rparr>)"

definition now :: "world \<Rightarrow> int \<times> world" where
  "now w = (timeline w (reads w), w\<lparr>reads := Suc (reads w)\<rparr>)"

definition nowPlusSecs :: "int \<Rightarrow> world \<Rightarrow> date \<times> world" where
  "nowPlusSecs secs w =
     (new_Date (timeline w (reads w) + secs * 1000), w\<lparr>reads := Suc (reads w)\<rparr>)"

text \<open>
  The schema keeps the default \<open>minimize\<close>: when a document is written or converted to a
  plain object, an object without properties is dropped, at every depth, except where
  it is an element of an array. \<open>minimize\<close> is that copy for a value outside an array,
  \<open>minimize_child\<close> for an element of an array; a dropped value is \<open>undefined\<close>.
\<close>

fun minimize :: "jsval \<Rightarrow> jsval"
  and minimize_child :: "jsval \<Rightarrow> jsval"
  and minimize_props :: "(string \<times> jsval) list \<Rightarrow> (string \<times> jsval) list"
  and minimize_items :: "jsval list \<Rightarrow> jsval list" where
  "minimize (JObj kvs) =
     (case minimize_props kvs of [] \<Rightarrow> JUndefined | kv # kvs' \<Rightarrow> JObj (kv # kvs'))"
| "minimize (JArr xs) = JArr (minimize_items xs)"
| "minimize JUndefined = JUndefined"
| "minimize JNull = JNull"
| "minimize (JBool b) = JBool b"
| "minimize (JNum n) = JNum n"
| "minimize (JStr s) = JStr s"
| "minimize_child (JObj kvs) = JObj (minimize_props kvs)"
| "minimize_child (JArr xs) = JArr (minimize_items xs)"
| "minimize_child JUndefined = JUndefined"
| "minimize_child JNull = JNull"
| "minimize_child (JBool b) = JBool b"
| "minimize_child (JNum n) = JNum n"
| "minimize_child (JStr s) = JStr s"
| "minimize_props [] = []"
| "minimize_props ((k, v) # kvs) =
     (if minimize v = JUndefined then minimize_props kvs
      else (k, minimize v) # minimize_props kvs)"
| "minimize_items [] = []"
| "minimize_items (x # xs) = minimize_child x # minimize_items xs"

text \<open>
  \<open>doc.toObject({getters: true, versionKey: false})\<close>: the minimized copy. Applying the
  getters runs the virtual \<open>inFlight\<close>, which reads the clock once (\<open>new Date()\<close>), so the
  conversion of a document costs one reading.
\<close>

definition toObject :: "Job \<Rightarrow> Job" where
  "toObject j = j\<lparr>payload := minimize (payload j)\<rparr>"

fun prep :: "handle \<Rightarrow> bool \<Rightarrow> world \<Rightarrow> handle \<times> world" where
  "prep doc rw w =
     (if \<not> rw then (doc, w)
      else case doc of
             Document j \<Rightarrow> (PlainObject (toObject j), w\<lparr>reads := Suc (reads w)\<rparr>)
           | PlainObject j \<Rightarrow> (PlainObject j, w))"

text \<open>\<open>prep\<close> on a result that may be \<open>null\<close>, and on an array.\<close>

fun prepNullable :: "handle option \<Rightarrow> bool \<Rightarrow> world \<Rightarrow> handle option \<times> world" where
  "prepNullable None rw w = (None, w)"
| "prepNullable (Some doc) rw w = (case prep doc rw w of (d, w') \<Rightarrow> (Some d, w'))"

fun prepArray :: "handle list \<Rightarrow> bool \<Rightarrow> world \<Rightarrow> handle list \<times> world" where
  "prepArray [] rw w = ([], w)"
| "prepArray (d # ds) rw w =
     (if \<not> rw then (d # ds, w)
      else case prep d rw w of
             (d', w1) \<Rightarrow> (case prepArray ds rw w1 of (ds', w2) \<Rightarrow> (d' # ds', w2)))"

subsection \<open>Storage calls\<close>

record find_options =
  sort_id :: bool
  new_doc :: bool

text \<open>The first match in natural order (no sort).\<close>

fun first_match :: "(Job \<Rightarrow> bool) \<Rightarrow> Job list \<Rightarrow> nat option" where
  "first_match P [] = None"
| "first_match P (d # ds) =
     (if P d then Some 0 else map_option Suc (first_match P ds))"

text \<open>The match with the least \<open>_id\<close> (sort \<open>{_id: 1}\<close>); among equal keys the earliest.\<close>

fun least_match :: "(Job \<Rightarrow> bool) \<Rightarrow> Job list \<Rightarrow> nat option" where
  "least_match P [] = None"
| "least_match P (d # ds) =
     (case least_match P ds of
        None \<Rightarrow> (if P d then Some 0 else None)
      | Some i \<Rightarrow> (if P d \<and> oid d \<le> oid (ds ! i) then Some 0 else Some (Suc i)))"

definition select_index :: "find_options \<Rightarrow> (Job \<Rightarrow> bool) \<Rightarrow> Job list \<Rightarrow> nat option" where
  "select_index opts query ds =
     (if sort_id opts then least_match query ds else first_match query ds)"

text \<open>
  An update document: the fields under \<open>$set\<close> and the amount under \<open>$inc\<close>, \<open>None\<close> for a
  key the document does not have.
\<close>

record update_doc =
  set_ack :: "string option"
  set_visible :: "date option"
  set_deleted :: "date option"
  set_progress :: "int option"
  set_payload :: "jsval option"
  inc_tries :: "int option"

definition no_update :: update_doc where
  "no_update =
     \<lparr>set_ack = None, set_visible = None, set_deleted = None, set_progress = None,
      set_payload = None, inc_tries = None\<rparr>"

text \<open>
  Mongoose casts the update to the schema before it asks the store: an Invalid Date for
  a \<open>Date\<close> path is a cast error.
\<close>

definition castable :: "update_doc \<Rightarrow> bool" where
  "castable u \<longleftrightarrow> set_visible u \<noteq> Some InvalidDate \<and> set_deleted u \<noteq> Some InvalidDate"

definition apply_update :: "update_doc \<Rightarrow> Job \<Rightarrow> Job" where
  "apply_update u d =
     d\<lparr>ack := (case set_ack u of None \<Rightarrow> ack d | Some a \<Rightarrow> Some a),
       visible := (case set_visible u of Some (Date t) \<Rightarrow> t | _ \<Rightarrow> visible d),
       deleted := (case set_deleted u of Some (Date t) \<Rightarrow> Some t | _ \<Rightarrow> deleted d),
       progress := (case set_progress u of None \<Rightarrow> progress d | Some p \<Rightarrow> Some p),
       payload := (case set_payload u of None \<Rightarrow> payload d | Some p \<Rightarrow> p),
       tries := (case inc_tries u of None \<Rightarrow> tries d | Some n \<Rightarrow> tries d + n)\<rparr>"

text \<open>
  \<open>this.queue.findOneAndUpdate(query, update, options)\<close> with \<open>lean: true\<close>: the cast of
  the update, then one atomic storage call that rewrites the selected document and
  resolves with it, or with \<open>null\<close>.
\<close>

definition findOneAndUpdate ::
  "(Job \<Rightarrow> bool) \<Rightarrow> update_doc \<Rightarrow> find_options \<Rightarrow> world \<Rightarrow> (error + handle option) \<times> world" where
  "findOneAndUpdate query update opts w =
     (if \<not> castable update then (Inl CastError, w)
      else
        let w' = w\<lparr>calls := Suc (calls w)\<rparr> in
        if outages w (calls w) then (Inl StoreError, w')
        else case select_index opts query (queue_docs w) of
               None \<Rightarrow> (Inr None, w')
             | Some i \<Rightarrow>
                 let old = queue_docs w ! i; new = apply_update update old
                 in (Inr (Some (PlainObject (if new_doc opts then new else old))),
                     w'\<lparr>queue_docs := (queue_docs w)[i := new]\<rparr>))"

text \<open>\<open>this.queue.findOne(query, null, options)\<close> with \<open>lean: true\<close>.\<close>

definition findOne ::
  "(Job \<Rightarrow> bool) \<Rightarrow> find_options \<Rightarrow> world \<Rightarrow> (error + handle option) \<times> world" where
  "findOne query opts w =
     (let w' = w\<lparr>calls := Suc (calls w)\<rparr> in
      if outages w (calls w) then (Inl StoreError, w')
      else case select_index opts query (queue_docs w) of
             None \<Rightarrow> (Inr None, w')
           | Some i \<Rightarrow> (Inr (Some (PlainObject (queue_docs w ! i))), w'))"

text \<open>The schema's \<open>required: true\<close> on \<open>payload\<close>.\<close>

definition missing :: "jsval \<Rightarrow> bool" where
  "missing p = (p = JUndefined \<or> p = JNull)"

text \<open>
  \<open>Model.create\<close> builds one document per input, the \<open>_id\<close>s in input order, and saves
  them one by one: a document that fails validation (an Invalid Date for \<open>visible\<close>, a
  missing \<open>payload\<close>) is not sent, every other document is one storage call of its own
  and is written, minimized, when the store accepts that call. \<open>save_each\<close> gives, per
  input, the error or the document as it is in memory, and the world after the saves.
\<close>

fun save_each :: "nat \<Rightarrow> (date \<times> jsval) list \<Rightarrow> world \<Rightarrow> (error + Job) list \<times> world" where
  "save_each n [] w = ([], w)"
| "save_each n ((InvalidDate, p) # ins) w =
     (case save_each (Suc n) ins w of (rs, w') \<Rightarrow> (Inl CastError # rs, w'))"
| "save_each n ((Date t, p) # ins) w =
     (if missing p
      then (case save_each (Suc n) ins w of (rs, w') \<Rightarrow> (Inl ValidationError # rs, w'))
      else
        let doc = \<lparr>oid = n, payload = p, visible = t, tries = 0, ack = None,
                   deleted = None, progress = None\<rparr>;
            w1 = w\<lparr>calls := Suc (calls w)\<rparr>
        in if outages w (calls w)
           then (case save_each (Suc n) ins w1 of (rs, w') \<Rightarrow> (Inl StoreError # rs, w'))
           else (case save_each (Suc n) ins (w1\<lparr>queue_docs := queue_docs w @ [toObject doc]\<rparr>) of
                   (rs, w') \<Rightarrow> (Inr doc # rs, w')))"

text \<open>
  The error \<open>create\<close> rejects with is the first one reported: a validation failure is
  known before any answer of the store.
\<close>

definition first_error :: "(error + Job) list \<Rightarrow> error option" where
  "first_error rs =
     (case filter (\<lambda>e. e \<noteq> StoreError) (concat (map (\<lambda>r. case r of Inl e \<Rightarrow> [e] | Inr d \<Rightarrow> []) rs)) of
        e # es \<Rightarrow> Some e
      | [] \<Rightarrow> (if list_ex isl rs then Some StoreError else None))"

definition queue_create ::
  "(date \<times> jsval) list \<Rightarrow> world \<Rightarrow> (error + handle list option) \<times> world" where
  "queue_create inserts w =
     (case save_each (next_oid w) inserts w of
        (rs, w1) \<Rightarrow>
          let w' = w1\<lparr>next_oid := next_oid w + length inserts\<rparr>
          in case first_error rs of
               Some e \<Rightarrow> (Inl e, w')
             | None \<Rightarrow> (Inr (Some (map Document (concat (map (\<lambda>r. case r of Inl e \<Rightarrow> [] | Inr d \<Rightarrow> [d]) rs)))), w'))"

text \<open>
  \<open>this.deadQueue.create({payload, tries})\<close>: \<open>visible\<close> takes the schema default
  \<open>Date.now\<close>, one reading of the clock, when the document is built.
\<close>

definition deadQueue_create :: "jsval \<Rightarrow> int \<Rightarrow> world \<Rightarrow> (error + handle) \<times> world" where
  "deadQueue_create p n w =
     (let (t, w1) = now w;
          w2 = w1\<lparr>next_oid := Suc (next_oid w1)\<rparr>;
          w' = w2\<lparr>calls := Suc (calls w2)\<rparr>
      in if missing p then (Inl ValidationError, w2)
         else if outages w2 (calls w2) then (Inl StoreError, w')
         else
           let doc = \<lparr>oid = next_oid w1, payload = p, visible = t, tries = n, ack = None,
                      deleted = None, progress = None\<rparr>
           in (Inr (Document doc), w'\<lparr>dead_docs := dead_docs w2 @ [toObject doc]\<rparr>))"

section \<open>The queue operations\<close>

definition add :: "JobQueue \<Rightarrow> jsval \<Rightarrow> int option \<Rightarrow> world \<Rightarrow> (error + added) \<times> world" where
  "add q pl delayArg w =
     (let dl = js_or delayArg (delay (options q));
          (vis, w1) = (if dl \<noteq> 0 then nowPlusSecs dl w
                       else (case now w of (t, w') \<Rightarrow> (Date t, w')))
      in case (case pl of
                 JArr ps \<Rightarrow> if length ps = 0 then Inl EmptyPayloadArray
                            else Inr (map (\<lambda>p. (vis, p)) ps)
               | _ \<Rightarrow> Inr [(vis, pl)]) of
           Inl e \<Rightarrow> (Inl e, w1)
         | Inr inserts \<Rightarrow>
             (case queue_create inserts w1 of
                (Inl e, w2) \<Rightarrow> (Inl (Wrapped e), w2)
              | (Inr None, w2) \<Rightarrow> (Inl EmptyCreateResult, w2)
              | (Inr (Some result), w2) \<Rightarrow>
                  if length inserts > 1
                  then (case prepArray result (raw (options q)) w2 of
                          (docs, w3) \<Rightarrow> (Inr (Many docs), w3))
                  else (case prep (result ! 0) (raw (options q)) w2 of
                          (doc, w3) \<Rightarrow> (Inr (One doc), w3))))"

text \<open>The \<open>options\<close> object of \<open>checkout\<close>, \<open>ping\<close> and \<open>acknowledge\<close>.\<close>

definition checkout_options :: "JobQueue \<Rightarrow> find_options" where
  "checkout_options q = \<lparr>sort_id = True, new_doc = True\<rparr>"

definition ping_options :: "JobQueue \<Rightarrow> find_options" where
  "ping_options q = \<lparr>sort_id = True, new_doc = True\<rparr>"

definition acknowledge_options :: "JobQueue \<Rightarrow> find_options" where
  "acknowledge_options q = \<lparr>sort_id = True, new_doc = True\<rparr>"

definition peek_options :: "JobQueue \<Rightarrow> find_options" where
  "peek_options q = \<lparr>sort_id = True, new_doc = False\<rparr>"

definition acknowledge :: "JobQueue \<Rightarrow> string \<Rightarrow> world \<Rightarrow> (error + handle) \<times> world" where
  "acknowledge q a w =
     (let (query, w1) =
            (if strictAck (options q)
             then (let (t, w') = now w
                   in (\<lambda>d. ack d = Some a \<and> deleted d = None \<and> visible d > t, w'))
             else (\<lambda>d. ack d = Some a \<and> deleted d = None, w));
          (t2, w2) = now w1;
          update = no_update\<lparr>set_deleted := Some (Date t2)\<rparr>
      in case findOneAndUpdate query update (acknowledge_options q) w2 of
           (Inl e, w3) \<Rightarrow> (Inl e, w3)
         | (Inr None, w3) \<Rightarrow> (Inl JobNotFound, w3)
         | (Inr (Some result), w3) \<Rightarrow>
             (case prep result (raw (options q)) w3 of (doc, w4) \<Rightarrow> (Inr doc, w4)))"

text \<open>
  The method \<open>ack\<close>, the short version of \<open>acknowledge\<close> (\<open>ack\<close> alone names the field of
  the job document).
\<close>

definition ack_method :: "JobQueue \<Rightarrow> string \<Rightarrow> world \<Rightarrow> (error + handle) \<times> world" where
  "ack_method q a w = acknowledge q a w"

definition ping ::
  "JobQueue \<Rightarrow> string \<Rightarrow> int option \<Rightarrow> int option \<Rightarrow> jsval \<Rightarrow> world
     \<Rightarrow> (error + handle option) \<times> world" where
  "ping q a visibilityArg percentArg pl w =
     (let percent = js_or percentArg 0;
          vis = js_or visibilityArg (visibility (options q));
          (query, w1) =
            (if strictAck (options q)
             then (let (t, w') = now w
                   in (\<lambda>d. ack d = Some a \<and> deleted d = None \<and> visible d > t, w'))
             else (\<lambda>d. ack d = Some a \<and> deleted d = None, w));
          (t2, w2) = nowPlusSecs vis w1;
          update = no_update\<lparr>set_visible := Some t2\<rparr>;
          update = (if percent \<noteq> 0 then update\<lparr>set_progress := Some percent\<rparr> else update);
          update = (if truthy pl then update\<lparr>set_payload := Some pl\<rparr> else update)
      in case findOneAndUpdate query update (ping_options q) w2 of
           (Inl e, w3) \<Rightarrow> (Inl e, w3)
         | (Inr result, w3) \<Rightarrow>
             (case prepNullable result (raw (options q)) w3 of (doc, w4) \<Rightarrow> (Inr doc, w4)))"

definition peek :: "JobQueue \<Rightarrow> world \<Rightarrow> (error + handle option) \<times> world" where
  "peek q w =
     (let (t, w1) = now w;
          query = (\<lambda>d. deleted d = None \<and> visible d \<le> t)
      in case findOne query (peek_options q) w1 of
           (Inl e, w2) \<Rightarrow> (Inl e, w2)
         | (Inr job, w2) \<Rightarrow>
             (case prepNullable job (raw (options q)) w2 of (doc, w3) \<Rightarrow> (Inr doc, w3)))"

text \<open>
  The atomic step of \<open>checkout\<close>: the query, the options and the update it builds, and
  the \<open>findOneAndUpdate\<close> it issues. \<open>vis\<close> is the visibility after defaulting.
\<close>

definition checkout_findOneAndUpdate ::
  "JobQueue \<Rightarrow> int \<Rightarrow> world \<Rightarrow> (error + handle option) \<times> world" where
  "checkout_findOneAndUpdate q vis w =
     (let (t, w1) = now w;
          query = (\<lambda>d. deleted d = None \<and> visible d \<le> t);
          (tok, w2) = id_hex w1;
          (t2, w3) = nowPlusSecs vis w2;
          update = no_update\<lparr>set_ack := Some tok, set_visible := Some t2, inc_tries := Some 1\<rparr>
      in findOneAndUpdate query update (checkout_options q) w3)"

text \<open>
  \<open>checkout\<close>. The promise resolves with \<open>Inr\<close> (a job or \<open>null\<close>) or rejects with
  \<open>Inl\<close>. The token handed to \<open>ack\<close> is \<open>job.ack\<close> of the document just returned, which
  the update has set; the branch for a document without a token is there for totality
  and is never taken. The recursive call passes the visibility after defaulting.
\<close>

function checkout :: "JobQueue \<Rightarrow> int option \<Rightarrow> world \<Rightarrow> (error + handle option) \<times> world" where
  "checkout q visibilityArg w =
     (let vis = js_or visibilityArg (visibility (options q)) in
      case checkout_findOneAndUpdate q vis w of
        (Inl e, w1) \<Rightarrow> (Inl e, w1)
      | (Inr None, w1) \<Rightarrow> (Inr None, w1)
      | (Inr (Some job), w1) \<Rightarrow>
          if deadQueueModel q = None
          then (case prep job (raw (options q)) w1 of (doc, w2) \<Rightarrow> (Inr (Some doc), w2))
          else if tries (job_of job) \<le> maxRetries (options q)
          then (case prep job (raw (options q)) w1 of (doc, w2) \<Rightarrow> (Inr (Some doc), w2))
          else
            (case deadQueue_create (payload (job_of job)) (tries (job_of job)) w1 of
               (Inl e, w2) \<Rightarrow> (Inl e, w2)
             | (Inr deadJob, w2) \<Rightarrow>
                 (case (case ack (job_of job) of
                          None \<Rightarrow> (Inl JobNotFound, w2)
                        | Some a \<Rightarrow> ack_method q a w2) of
                    (Inl e, w3) \<Rightarrow> (Inl e, w3)
                  | (Inr ackJob, w3) \<Rightarrow>
                      (case checkout q (Some vis) w3 of
                         (Inl e, w4) \<Rightarrow> (Inl e, w4)
                       | (Inr job', w4) \<Rightarrow>
                           (case prepNullable job' (raw (options q)) w4 of
                              (doc, w5) \<Rightarrow> (Inr doc, w5))))))"
  by pat_completeness auto

section \<open>Concrete inputs\<close>

text \<open>
  A world in which nothing fails: the clock reads 1000, 1001, ... ms, the tokens are
  \<open>a\<close>, \<open>aa\<close>, ..., every storage call is answered, both collections are empty.
\<close>

definition calm_world :: world where
  "calm_world =
     \<lparr>timeline = (\<lambda>n. 1000 + int n), reads = 0,
      hexes = (\<lambda>n. replicate (Suc n) CHR ''a''), draws = 0,
      outages = (\<lambda>n. False), calls = 0, next_oid = 0, queue_docs = [], dead_docs = []\<rparr>"

text \<open>A document as \<open>add\<close> stores it.\<close>

definition plain_job :: "nat \<Rightarrow> jsval \<Rightarrow> int \<Rightarrow> Job" where
  "plain_job n p v =
     \<lparr>oid = n, payload = p, visible = v, tries = 0, ack = None, deleted = None,
      progress = None\<rparr>"

text \<open>The queue object that the constructor builds under the name \<open>queue\<close>.\<close>

definition built_queue :: JobQueue where
  "built_queue =
     \<lparr>name = ''queue'', options = default_options, queue = Model ''queue'',
      deadQueueModel = None\<rparr>"

text \<open>
  A job that has been added with payload \<open>Hey\<close> and checked out once, and the world right
  after that checkout: the lease (token \<open>a\<close>) runs until 31003 and the clock is at 1004.
\<close>

definition claimed_job :: Job where
  "claimed_job = (plain_job 0 (JStr ''Hey'') 31003)\<lparr>tries := 1, ack := Some ''a''\<rparr>"

definition leased_world :: world where
  "leased_world =
     calm_world\<lparr>reads := 4, draws := 1, calls := 2, next_oid := 1, queue_docs := [claimed_job]\<rparr>"

text \<open>
  Two jobs just added in one call and never checked out; the clock is at 1003.
\<close>

definition stocked_world :: world where
  "stocked_world =
     calm_world\<lparr>reads := 3, calls := 2, next_oid := 2,
       queue_docs := [plain_job 0 (JStr ''One'') 1000, plain_job 1 (JStr ''Two'') 1000]\<rparr>"

text \<open>
  A world whose clock advances by 40 s from one reading to the next, so that a lease of
  30 s has run out when the next call reads the clock. \<open>turn k\<close> is that world after one
  job has been added and then checked out \<open>k\<close> times, each lease left to expire.
\<close>

definition slow_world :: world where
  "slow_world = calm_world\<lparr>timeline := (\<lambda>n. 1000 + 40000 * int n)\<rparr>"

definition turn :: "nat \<Rightarrow> world" where
  "turn k =
     slow_world\<lparr>reads := 2 + 2 * k, draws := k, calls := 1 + k, next_oid := 1,
       queue_docs :=
         [\<lparr>oid = 0, payload = JStr ''One'',
           visible = (if k = 0 then 1000 else 71000 + 80000 * int k),
           tries = int k,
           ack = (if k = 0 then None else Some (replicate k CHR ''a'')),
           deleted = None, progress = None\<rparr>]\<rparr>"

text \<open>
  The leased job after its acknowledgement at 1005, in front of a job added after
  that and never checked out.
\<close>

definition done_job :: Job where
  "done_job = claimed_job\<lparr>deleted := Some 1005\<rparr>"

definition settled_world :: world where
  "settled_world =
     calm_world\<lparr>reads := 8, draws := 1, calls := 4, next_oid := 2,
       queue_docs := [done_job, plain_job 1 (JStr ''Two'') 1006]\<rparr>"

section \<open>Measures and predicates used in the proofs\<close>

text \<open>The number of documents of a collection that are not marked deleted.\<close>

definition alive :: "Job \<Rightarrow> nat" where
  "alive d = (if deleted d = None then 1 else 0)"

definition live :: "Job list \<Rightarrow> nat" where
  "live ds = length (filter (\<lambda>d. deleted d = None) ds)"

text \<open>
  The selection predicate of \<open>ping\<close> and \<open>acknowledge\<close>, with \<open>t\<close> the clock reading of the
  query: the token matches, the document is not deleted and, in strict mode, the lease
  has not expired.
\<close>

definition leased :: "JobQueue \<Rightarrow> string \<Rightarrow> int \<Rightarrow> Job \<Rightarrow> bool" where
  "leased q a t d \<longleftrightarrow>
     ack d = Some a \<and> deleted d = None \<and> (strictAck (options q) \<longrightarrow> visible d > t)"

text \<open>
  The world in which \<open>ping\<close> and \<open>acknowledge\<close> build their update: the query has read the
  clock in strict mode only.
\<close>

definition after_query :: "JobQueue \<Rightarrow> world \<Rightarrow> world" where
  "after_query q w = (if strictAck (options q) then w\<lparr>reads := Suc (reads w)\<rparr> else w)"

text \<open>The \<open>$set\<close> of \<open>ping\<close> as one function of the arguments.\<close>

definition ping_update :: "int option \<Rightarrow> jsval \<Rightarrow> int \<Rightarrow> Job \<Rightarrow> Job" where
  "ping_update percentArg pl t old =
     old\<lparr>payload := (if truthy pl then pl else payload old),
         visible := t,
         progress := (case percentArg of
                        None \<Rightarrow> progress old
                      | Some p \<Rightarrow> if p \<noteq> 0 then Some p else progress old)\<rparr>"

text \<open>
  The update document of \<open>ping\<close> for a deadline \<open>t\<close>, and the deadline it computes: the
  reading of the clock after the query plus the visibility in ms.
\<close>

definition ping_doc :: "int option \<Rightarrow> jsval \<Rightarrow> date \<Rightarrow> update_doc" where
  "ping_doc percentArg pl t =
     (let update = no_update\<lparr>set_visible := Some t\<rparr>;
          update = (if js_or percentArg 0 \<noteq> 0
                    then update\<lparr>set_progress := Some (js_or percentArg 0)\<rparr> else update)
      in if truthy pl then update\<lparr>set_payload := Some pl\<rparr> else update)"

definition ping_deadline :: "JobQueue \<Rightarrow> int option \<Rightarrow> world \<Rightarrow> int" where
  "ping_deadline q visibilityArg w =
     timeline w (reads (after_query q w)) + js_or visibilityArg (visibility (options q)) * 1000"

text \<open>At most one document of the collection carries the token.\<close>

definition sole_holder :: "string \<Rightarrow> Job list \<Rightarrow> bool" where
  "sole_holder a ds \<longleftrightarrow> length (filter (\<lambda>d. ack d = Some a) ds) \<le> 1"

text \<open>
  The selection predicate of \<open>checkout\<close> and \<open>peek\<close>, with \<open>t\<close> the clock reading of the
  query, and the update of \<open>checkout\<close> with its token and its new deadline.
\<close>

definition eligible :: "int \<Rightarrow> Job \<Rightarrow> bool" where
  "eligible t d \<longleftrightarrow> deleted d = None \<and> visible d \<le> t"

definition claim_update :: "string \<Rightarrow> int \<Rightarrow> Job \<Rightarrow> Job" where
  "claim_update tok t d = d\<lparr>ack := Some tok, visible := t, tries := tries d + 1\<rparr>"

text \<open>
  The update document of \<open>checkout\<close> for a token and a deadline, and the deadline it
  computes: the second reading of the clock plus the visibility in ms.
\<close>

definition claim_doc :: "string \<Rightarrow> date \<Rightarrow> update_doc" where
  "claim_doc tok t = no_update\<lparr>set_ack := Some tok, set_visible := Some t, inc_tries := Some 1\<rparr>"

definition claim_deadline :: "JobQueue \<Rightarrow> int option \<Rightarrow> world \<Rightarrow> int" where
  "claim_deadline q visibilityArg w =
     timeline w (Suc (reads w)) + js_or visibilityArg (visibility (options q)) * 1000"

text \<open>
  The world in which \<open>checkout\<close> issues its storage call: two clock readings and one
  token later.
\<close>

definition after_claim :: "world \<Rightarrow> world" where
  "after_claim w = w\<lparr>draws := Suc (draws w), reads := Suc (Suc (reads w))\<rparr>"

text \<open>
  A document marked deleted in \<open>ds\<close> is the same document, at the same place, in \<open>ds'\<close>.
\<close>

definition frozen :: "Job list \<Rightarrow> Job list \<Rightarrow> bool" where
  "frozen ds ds' \<longleftrightarrow>
     length ds \<le> length ds' \<and> (\<forall>i<length ds. deleted (ds ! i) \<noteq> None \<longrightarrow> ds' ! i = ds ! i)"

text \<open>
  The runs of \<open>checkout\<close> as a relation between the call and its outcome, one rule per
  path through the promise chain. \<open>checkout\<close> is shown below to follow it.
\<close>

inductive served :: "JobQueue \<Rightarrow> int option \<Rightarrow> world \<Rightarrow> (error + handle option) \<times> world \<Rightarrow> bool"
  where
  reject:
    "checkout_findOneAndUpdate q (js_or v (visibility (options q))) w = (Inl e, w1)
     \<Longrightarrow> served q v w (Inl e, w1)"
| empty:
    "checkout_findOneAndUpdate q (js_or v (visibility (options q))) w = (Inr None, w1)
     \<Longrightarrow> served q v w (Inr None, w1)"
| serve:
    "checkout_findOneAndUpdate q (js_or v (visibility (options q))) w = (Inr (Some job), w1)
     \<Longrightarrow> deadQueueModel q = None \<or> tries (job_of job) \<le> maxRetries (options q)
     \<Longrightarrow> prep job (raw (options q)) w1 = (doc, w2)
     \<Longrightarrow> served q v w (Inr (Some doc), w2)"
| bury_fail:
    "checkout_findOneAndUpdate q (js_or v (visibility (options q))) w = (Inr (Some job), w1)
     \<Longrightarrow> deadQueueModel q \<noteq> None \<Longrightarrow> maxRetries (options q) < tries (job_of job)
     \<Longrightarrow> deadQueue_create (payload (job_of job)) (tries (job_of job)) w1 = (Inl e, w2)
     \<Longrightarrow> served q v w (Inl e, w2)"
| no_token:
    "checkout_findOneAndUpdate q (js_or v (visibility (options q))) w = (Inr (Some job), w1)
     \<Longrightarrow> deadQueueModel q \<noteq> None \<Longrightarrow> maxRetries (options q) < tries (job_of job)
     \<Longrightarrow> deadQueue_create (payload (job_of job)) (tries (job_of job)) w1 = (Inr dj, w2)
     \<Longrightarrow> ack (job_of job) = None
     \<Longrightarrow> served q v w (Inl JobNotFound, w2)"
| ack_fail:
    "checkout_findOneAndUpdate q (js_or v (visibility (options q))) w = (Inr (Some job), w1)
     \<Longrightarrow> deadQueueModel q \<noteq> None \<Longrightarrow> maxRetries (options q) < tries (job_of job)
     \<Longrightarrow> deadQueue_create (payload (job_of job)) (tries (job_of job)) w1 = (Inr dj, w2)
     \<Longrightarrow> ack (job_of job) = Some a
     \<Longrightarrow> acknowledge q a w2 = (Inl e, w3)
     \<Longrightarrow> served q v w (Inl e, w3)"
| retry_fail:
    "checkout_findOneAndUpdate q (js_or v (visibility (options q))) w = (Inr (Some job), w1)
     \<Longrightarrow> deadQueueModel q \<noteq> None \<Longrightarrow> maxRetries (options q) < tries (job_of job)
     \<Longrightarrow> deadQueue_create (payload (job_of job)) (tries (job_of job)) w1 = (Inr dj, w2)
     \<Longrightarrow> ack (job_of job) = Some a
     \<Longrightarrow> acknowledge q a w2 = (Inr aj, w3)
     \<Longrightarrow> served q (Some (js_or v (visibility (options q)))) w3 (Inl e, w4)
     \<Longrightarrow> served q v w (Inl e, w4)"
| retry:
    "checkout_findOneAndUpdate q (js_or v (visibility (options q))) w = (Inr (Some job), w1)
     \<Longrightarrow> deadQueueModel q \<noteq> None \<Longrightarrow> maxRetries (options q) < tries (job_of job)
     \<Longrightarrow> deadQueue_create (payload (job_of job)) (tries (job_of job)) w1 = (Inr dj, w2)
     \<Longrightarrow> ack (job_of job) = Some a
     \<Longrightarrow> acknowledge q a w2 = (Inr aj, w3)
     \<Longrightarrow> served q (Some (js_or v (visibility (options q)))) w3 (Inr job', w4)
     \<Longrightarrow> prepNullable job' (raw (options q)) w4 = (doc, w5)
     \<Longrightarrow> served q v w (Inr doc, w5)"

section \<open>Selection\<close>

lemma first_match_Some:
  "first_match P ds = Some i \<Longrightarrow> i < length ds \<and> P (ds ! i)"
  by (induction ds arbitrary: i) (auto split: if_splits)

lemma first_match_None: "first_match P ds = None \<longleftrightarrow> (\<forall>d\<in>set ds. \<not> P d)"
  by (induction ds) auto

lemma least_match_Some:
  "least_match P ds = Some i \<Longrightarrow> i < length ds \<and> P (ds ! i)"
  by (induction ds arbitrary: i) (auto split: option.splits if_splits)

lemma least_match_None: "least_match P ds = None \<longleftrightarrow> (\<forall>d\<in>set ds. \<not> P d)"
  by (induction ds) (auto split: option.splits)

lemma least_match_least:
  "least_match P ds = Some i \<Longrightarrow> k < length ds \<Longrightarrow> P (ds ! k) \<Longrightarrow> oid (ds ! i) \<le> oid (ds ! k)"
proof (induction ds arbitrary: i k)
  case Nil
  then show ?case by simp
next
  case (Cons d ds)
  show ?case
  proof (cases k)
    case 0
    with Cons.prems show ?thesis
      by (auto split: option.splits if_splits)
  next
    case (Suc k')
    with Cons.prems have k': "k' < length ds" "P (ds ! k')" by auto
    then obtain j where j: "least_match P ds = Some j"
      using least_match_None [of P ds] by (cases "least_match P ds") auto
    from Cons.IH [OF j k'] have le: "oid (ds ! j) \<le> oid (ds ! k')" .
    from Cons.prems(1) j le Suc show ?thesis
      by (auto split: if_splits)
  qed
qed

lemma select_index_Some:
  "select_index opts P ds = Some i \<Longrightarrow> i < length ds \<and> P (ds ! i)"
  unfolding select_index_def
  by (auto split: if_splits dest: first_match_Some least_match_Some)

lemma select_index_None: "select_index opts P ds = None \<longleftrightarrow> (\<forall>d\<in>set ds. \<not> P d)"
  unfolding select_index_def by (simp add: first_match_None least_match_None)

lemma select_index_least:
  "sort_id opts \<Longrightarrow> select_index opts P ds = Some i \<Longrightarrow> k < length ds \<Longrightarrow> P (ds ! k) \<Longrightarrow>
   oid (ds ! i) \<le> oid (ds ! k)"
  unfolding select_index_def by (auto dest: least_match_least)

lemma select_index_ex:
  "\<exists>d\<in>set ds. P d \<Longrightarrow> \<exists>i. select_index opts P ds = Some i"
  using select_index_None [of opts P ds] by (cases "select_index opts P ds") auto

section \<open>Termination of checkout\<close>

lemma live_Cons: "live (d # ds) = alive d + live ds"
  by (simp add: live_def alive_def)

lemma live_update:
  "i < length ds \<Longrightarrow> live (ds[i := x]) + alive (ds ! i) = live ds + alive x"
proof (induction ds arbitrary: i)
  case Nil
  then show ?case by simp
next
  case (Cons d ds)
  show ?case
  proof (cases i)
    case 0
    then show ?thesis by (simp add: live_Cons)
  next
    case (Suc k)
    with Cons.prems have "k < length ds" by simp
    from Cons.IH [OF this] Suc show ?thesis by (simp add: live_Cons)
  qed
qed

lemma live_update_same:
  "i < length ds \<Longrightarrow> deleted x = deleted (ds ! i) \<Longrightarrow> live (ds[i := x]) = live ds"
  using live_update [of i ds x] by (simp add: alive_def split: if_splits)

lemma live_update_delete:
  "i < length ds \<Longrightarrow> deleted (ds ! i) = None \<Longrightarrow> deleted x \<noteq> None \<Longrightarrow>
   live (ds[i := x]) < live ds"
  using live_update [of i ds x] by (simp add: alive_def split: if_splits)

lemma new_Date_valid: "valid_time t \<Longrightarrow> new_Date t = Date t"
  by (simp add: new_Date_def)

lemma new_Date_invalid: "\<not> valid_time t \<Longrightarrow> new_Date t = InvalidDate"
  by (simp add: new_Date_def)

lemma apply_update_deleted:
  "deleted (apply_update u d) = (case set_deleted u of Some (Date t) \<Rightarrow> Some t | _ \<Rightarrow> deleted d)"
  by (simp add: apply_update_def)

lemma prep_world [simp]:
  "queue_docs (snd (prep doc rw w)) = queue_docs w"
  "dead_docs (snd (prep doc rw w)) = dead_docs w"
  by (simp_all split: handle.splits)

lemma prepNullable_world [simp]:
  "queue_docs (snd (prepNullable r rw w)) = queue_docs w"
  "dead_docs (snd (prepNullable r rw w)) = dead_docs w"
  by (cases r; simp split: handle.splits prod.splits)+

lemma prepNullable_plain [simp]:
  "prepNullable (Some (PlainObject j)) rw w = (Some (PlainObject j), w)"
  by simp

lemma findOneAndUpdate_live:
  assumes "findOneAndUpdate query update opts w = (r, w')"
    and "set_deleted update = None"
  shows "live (queue_docs w') = live (queue_docs w)"
  using assms
  by (auto simp: findOneAndUpdate_def Let_def live_update_same apply_update_deleted
      split: if_splits option.splits dest!: select_index_Some)

lemma checkout_findOneAndUpdate_live:
  "checkout_findOneAndUpdate q vis w = (r, w') \<Longrightarrow> live (queue_docs w') = live (queue_docs w)"
  unfolding checkout_findOneAndUpdate_def now_def id_hex_def nowPlusSecs_def
  by (auto simp: Let_def no_update_def dest!: findOneAndUpdate_live)

lemma deadQueue_create_queue_docs:
  "deadQueue_create p n w = (r, w') \<Longrightarrow> queue_docs w' = queue_docs w"
  by (auto simp: deadQueue_create_def now_def Let_def split: if_splits)

lemma acknowledge_live:
  "acknowledge q a w = (Inr j, w') \<Longrightarrow> live (queue_docs w') < live (queue_docs w)"
  unfolding acknowledge_def now_def findOneAndUpdate_def
  by (auto simp: Let_def live_update_delete apply_update_deleted no_update_def
      split: if_splits option.splits dest!: select_index_Some)

text \<open>
  Every recursive call of \<open>checkout\<close> follows a successful \<open>ack\<close>, which marks one more
  document deleted, so the recursion is bounded by the number of live documents.
\<close>

termination checkout
  apply (relation "measure (\<lambda>(q, v, w). live (queue_docs w))")
   apply simp
  apply (auto simp: ack_method_def split: option.splits
      dest!: sym [of "(Inr _, _)"] acknowledge_live checkout_findOneAndUpdate_live
        deadQueue_create_queue_docs)
  done

declare checkout.simps [simp del]

section \<open>The storage call, case by case\<close>

lemma findOneAndUpdate_cast:
  "\<not> castable update \<Longrightarrow> findOneAndUpdate query update opts w = (Inl CastError, w)"
  by (simp add: findOneAndUpdate_def)

lemma findOneAndUpdate_outage:
  "castable update \<Longrightarrow> outages w (calls w) \<Longrightarrow>
   findOneAndUpdate query update opts w = (Inl StoreError, w\<lparr>calls := Suc (calls w)\<rparr>)"
  by (simp add: findOneAndUpdate_def Let_def)

lemma findOneAndUpdate_miss:
  "castable update \<Longrightarrow> \<not> outages w (calls w) \<Longrightarrow> select_index opts query (queue_docs w) = None \<Longrightarrow>
   findOneAndUpdate query update opts w = (Inr None, w\<lparr>calls := Suc (calls w)\<rparr>)"
  by (simp add: findOneAndUpdate_def Let_def)

lemma findOneAndUpdate_hit:
  "castable update \<Longrightarrow> \<not> outages w (calls w) \<Longrightarrow> select_index opts query (queue_docs w) = Some i \<Longrightarrow>
   findOneAndUpdate query update opts w =
     (Inr (Some (PlainObject (if new_doc opts then apply_update update (queue_docs w ! i)
                              else queue_docs w ! i))),
      w\<lparr>calls := Suc (calls w),
        queue_docs := (queue_docs w)[i := apply_update update (queue_docs w ! i)]\<rparr>)"
  by (simp add: findOneAndUpdate_def Let_def)

section \<open>ping and acknowledge\<close>

lemma strict_query:
  "strictAck (options q) \<Longrightarrow>
   (\<lambda>d. ack d = Some a \<and> deleted d = None \<and> t < visible d) = leased q a t"
  by (auto simp: leased_def fun_eq_iff)

lemma lax_query:
  "\<not> strictAck (options q) \<Longrightarrow> (\<lambda>d. ack d = Some a \<and> deleted d = None) = leased q a t"
  by (auto simp: leased_def fun_eq_iff)

lemma after_query_fields [simp]:
  "timeline (after_query q w) = timeline w"
  "outages (after_query q w) = outages w"
  "calls (after_query q w) = calls w"
  "queue_docs (after_query q w) = queue_docs w"
  "dead_docs (after_query q w) = dead_docs w"
  "draws (after_query q w) = draws w"
  "hexes (after_query q w) = hexes w"
  "next_oid (after_query q w) = next_oid w"
  by (simp_all add: after_query_def)

lemma reads_after_query: "reads w \<le> reads (after_query q w)"
  by (simp add: after_query_def)

lemma leased_later:
  "leased q a t' d \<Longrightarrow> t \<le> t' \<Longrightarrow> leased q a t d"
  by (auto simp: leased_def)

text \<open>The update documents of the three operations, cast and applied.\<close>

lemma ack_update [simp]:
  "castable (no_update\<lparr>set_deleted := Some (Date t)\<rparr>)"
  "apply_update (no_update\<lparr>set_deleted := Some (Date t)\<rparr>) d = d\<lparr>deleted := Some t\<rparr>"
  by (simp_all add: castable_def apply_update_def no_update_def)

lemma ping_doc_castable:
  "castable (ping_doc percentArg pl t) \<longleftrightarrow> t \<noteq> InvalidDate"
  by (simp add: castable_def ping_doc_def no_update_def Let_def)

lemma ping_doc_apply:
  "apply_update (ping_doc percentArg pl (Date t)) d = ping_update percentArg pl t d"
  by (cases percentArg)
     (simp_all add: apply_update_def ping_doc_def ping_update_def no_update_def js_or_def Let_def)

lemma claim_doc_castable:
  "castable (claim_doc tok t) \<longleftrightarrow> t \<noteq> InvalidDate"
  by (simp add: castable_def claim_doc_def no_update_def)

lemma claim_doc_apply:
  "apply_update (claim_doc tok (Date t)) d = claim_update tok t d"
  by (simp add: apply_update_def claim_doc_def claim_update_def no_update_def)

lemma ping_unfold:
  "ping q a visibilityArg percentArg pl w =
     (let w1 = after_query q w;
          t2 = new_Date (timeline w (reads w1) + js_or visibilityArg (visibility (options q)) * 1000)
      in case findOneAndUpdate (leased q a (timeline w (reads w))) (ping_doc percentArg pl t2)
                (ping_options q) (w1\<lparr>reads := Suc (reads w1)\<rparr>) of
           (Inl e, w3) \<Rightarrow> (Inl e, w3)
         | (Inr result, w3) \<Rightarrow>
             (case prepNullable result (raw (options q)) w3 of (doc, w4) \<Rightarrow> (Inr doc, w4)))"
  by (cases "strictAck (options q)")
     (simp_all add: ping_def after_query_def now_def nowPlusSecs_def Let_def ping_doc_def
        strict_query lax_query [where t = "timeline w (reads w)"])

text \<open>The clock reading and the deadline of a ping.\<close>

lemma ping_cast:
  assumes "\<not> valid_time (ping_deadline q visibilityArg w)"
  shows "ping q a visibilityArg percentArg pl w
           = (Inl CastError, (after_query q w)\<lparr>reads := Suc (reads (after_query q w))\<rparr>)"
  using assms
  by (simp add: ping_unfold Let_def ping_deadline_def new_Date_invalid findOneAndUpdate_cast
      ping_doc_castable)

lemma ping_miss:
  assumes "valid_time (ping_deadline q visibilityArg w)"
    and up: "\<not> outages w (calls w)"
    and sel: "select_index (ping_options q) (leased q a (timeline w (reads w))) (queue_docs w) = None"
  shows "ping q a visibilityArg percentArg pl w
           = (Inr None, (after_query q w)\<lparr>reads := Suc (reads (after_query q w)),
                                          calls := Suc (calls w)\<rparr>)"
  using assms
  by (simp add: ping_unfold Let_def ping_deadline_def new_Date_valid findOneAndUpdate_miss
      ping_doc_castable)

lemma ping_hit:
  assumes "valid_time (ping_deadline q visibilityArg w)"
    and up: "\<not> outages w (calls w)"
    and sel: "select_index (ping_options q) (leased q a (timeline w (reads w))) (queue_docs w) = Some i"
  shows "ping q a visibilityArg percentArg pl w =
     (let w1 = after_query q w;
          new = ping_update percentArg pl (ping_deadline q visibilityArg w) (queue_docs w ! i)
      in (Inr (Some (PlainObject new)),
          w1\<lparr>reads := Suc (reads w1), calls := Suc (calls w),
             queue_docs := (queue_docs w)[i := new]\<rparr>))"
  using assms
  by (simp add: ping_unfold Let_def ping_deadline_def new_Date_valid findOneAndUpdate_hit
      ping_doc_castable ping_doc_apply ping_options_def)

lemma filter_le1_unique:
  "length (filter P ds) \<le> 1 \<Longrightarrow> i < length ds \<Longrightarrow> k < length ds \<Longrightarrow> P (ds ! i) \<Longrightarrow> P (ds ! k)
   \<Longrightarrow> i = k"
proof (induction ds arbitrary: i k)
  case Nil
  then show ?case by simp
next
  case (Cons d ds)
  show ?case
  proof (cases "P d")
    case True
    with Cons.prems(1) have "filter P ds = []" by simp
    then have none: "\<forall>x\<in>set ds. \<not> P x" by (simp add: filter_empty_conv)
    have "i = 0"
    proof (cases i)
      case (Suc i')
      with Cons.prems(2,4) have "ds ! i' \<in> set ds" "P (ds ! i')" by simp_all
      with none show ?thesis by blast
    qed simp
    moreover have "k = 0"
    proof (cases k)
      case (Suc k')
      with Cons.prems(3,5) have "ds ! k' \<in> set ds" "P (ds ! k')" by simp_all
      with none show ?thesis by blast
    qed simp
    ultimately show ?thesis by simp
  next
    case False
    with Cons.prems(4,5) obtain i' k' where ik: "i = Suc i'" "k = Suc k'"
      by (cases i; cases k) auto
    from False Cons.prems(1) have "length (filter P ds) \<le> 1" by simp
    from Cons.IH [OF this, of i' k'] Cons.prems ik show ?thesis by simp
  qed
qed

lemma acknowledge_unfold:
  "acknowledge q a w =
     (let w1 = after_query q w;
          t2 = timeline w (reads w1)
      in case findOneAndUpdate (leased q a (timeline w (reads w)))
                (no_update\<lparr>set_deleted := Some (Date t2)\<rparr>)
                (acknowledge_options q) (w1\<lparr>reads := Suc (reads w1)\<rparr>) of
           (Inl e, w3) \<Rightarrow> (Inl e, w3)
         | (Inr None, w3) \<Rightarrow> (Inl JobNotFound, w3)
         | (Inr (Some result), w3) \<Rightarrow>
             (case prep result (raw (options q)) w3 of (doc, w4) \<Rightarrow> (Inr doc, w4)))"
  by (cases "strictAck (options q)")
     (simp_all add: acknowledge_def after_query_def now_def Let_def
        strict_query lax_query [where t = "timeline w (reads w)"])

lemma acknowledge_outage:
  "outages w (calls w) \<Longrightarrow> fst (acknowledge q a w) = Inl StoreError"
  by (simp add: acknowledge_unfold after_query_def Let_def findOneAndUpdate_outage)

lemma acknowledge_miss:
  assumes up: "\<not> outages w (calls w)"
    and sel: "select_index (acknowledge_options q) (leased q a (timeline w (reads w))) (queue_docs w) = None"
  shows "acknowledge q a w =
     (Inl JobNotFound, (after_query q w)\<lparr>reads := Suc (reads (after_query q w)), calls := Suc (calls w)\<rparr>)"
  using up sel
  by (simp add: acknowledge_unfold after_query_def Let_def findOneAndUpdate_miss)

lemma acknowledge_hit:
  assumes up: "\<not> outages w (calls w)"
    and sel: "select_index (acknowledge_options q) (leased q a (timeline w (reads w))) (queue_docs w) = Some i"
  shows "acknowledge q a w =
     (let w1 = after_query q w;
          new = (queue_docs w ! i)\<lparr>deleted := Some (timeline w (reads w1))\<rparr>
      in (Inr (PlainObject new),
          w1\<lparr>reads := Suc (reads w1), calls := Suc (calls w),
             queue_docs := (queue_docs w)[i := new]\<rparr>))"
  using up sel
  by (simp add: acknowledge_unfold after_query_def Let_def findOneAndUpdate_hit acknowledge_options_def)

lemma acknowledge_twice:
  assumes up: "\<not> outages w (calls w)"
    and sole: "sole_holder a (queue_docs w)"
    and mono: "mono (timeline w)"
  shows "\<exists>e. fst (acknowledge q a (snd (acknowledge q a w))) = Inl e"
proof (cases "select_index (acknowledge_options q) (leased q a (timeline w (reads w))) (queue_docs w)")
  case None
  let ?w1 = "(after_query q w)\<lparr>reads := Suc (reads (after_query q w)), calls := Suc (calls w)\<rparr>"
  from acknowledge_miss [OF up None] have w1: "snd (acknowledge q a w) = ?w1" by simp
  show ?thesis
  proof (cases "outages ?w1 (calls ?w1)")
    case True
    then show ?thesis by (simp add: w1 acknowledge_outage)
  next
    case False
    have "timeline w (reads w) \<le> timeline w (reads ?w1)"
      using monoD [OF mono, of "reads w" "Suc (reads (after_query q w))"] reads_after_query [of w q]
      by simp
    then have "\<forall>d\<in>set (queue_docs ?w1). \<not> leased q a (timeline ?w1 (reads ?w1)) d"
      using None by (auto simp: select_index_None dest: leased_later)
    then have "select_index (acknowledge_options q) (leased q a (timeline ?w1 (reads ?w1)))
                 (queue_docs ?w1) = None"
      by (simp add: select_index_None)
    from acknowledge_miss [OF False this] show ?thesis by (simp add: w1)
  qed
next
  case (Some i)
  let ?ds = "queue_docs w"
  let ?new = "(?ds ! i)\<lparr>deleted := Some (timeline w (reads (after_query q w)))\<rparr>"
  let ?w1 = "(after_query q w)\<lparr>reads := Suc (reads (after_query q w)), calls := Suc (calls w),
                queue_docs := ?ds[i := ?new]\<rparr>"
  from acknowledge_hit [OF up Some] have w1: "snd (acknowledge q a w) = ?w1" by (simp add: Let_def)
  from select_index_Some [OF Some] have i: "i < length ?ds" "ack (?ds ! i) = Some a"
    by (simp_all add: leased_def)
  show ?thesis
  proof (cases "outages ?w1 (calls ?w1)")
    case True
    then show ?thesis by (simp add: w1 acknowledge_outage)
  next
    case False
    have "\<not> leased q a t (?ds[i := ?new] ! k)" if k: "k < length ?ds" for k t
    proof (cases "k = i")
      case True
      with i show ?thesis by (simp add: leased_def)
    next
      case False
      with filter_le1_unique [of "\<lambda>d. ack d = Some a" ?ds i k] sole i k
      show ?thesis by (auto simp: sole_holder_def leased_def)
    qed
    then have "\<forall>d\<in>set (queue_docs ?w1). \<not> leased q a (timeline ?w1 (reads ?w1)) d"
      by (auto simp: in_set_conv_nth)
    then have "select_index (acknowledge_options q) (leased q a (timeline ?w1 (reads ?w1)))
                 (queue_docs ?w1) = None"
      by (simp add: select_index_None)
    from acknowledge_miss [OF False this] show ?thesis by (simp add: w1)
  qed
qed

section \<open>checkout, path by path\<close>

lemma checkout_findOneAndUpdate_unfold:
  "checkout_findOneAndUpdate q vis w =
     findOneAndUpdate (eligible (timeline w (reads w)))
       (claim_doc (hexes w (draws w)) (new_Date (timeline w (Suc (reads w)) + vis * 1000)))
       (checkout_options q) (after_claim w)"
proof -
  have q: "(\<lambda>d. deleted d = None \<and> visible d \<le> t) = eligible t" for t
    by (simp add: eligible_def fun_eq_iff)
  show ?thesis
    by (simp add: checkout_findOneAndUpdate_def now_def id_hex_def nowPlusSecs_def Let_def q
        claim_doc_def after_claim_def)
qed

lemma after_claim_fields [simp]:
  "timeline (after_claim w) = timeline w"
  "outages (after_claim w) = outages w"
  "calls (after_claim w) = calls w"
  "queue_docs (after_claim w) = queue_docs w"
  "dead_docs (after_claim w) = dead_docs w"
  "hexes (after_claim w) = hexes w"
  "next_oid (after_claim w) = next_oid w"
  "reads (after_claim w) = Suc (Suc (reads w))"
  "draws (after_claim w) = Suc (draws w)"
  by (simp_all add: after_claim_def)

lemma checkout_findOneAndUpdate_cast:
  "\<not> valid_time (timeline w (Suc (reads w)) + vis * 1000) \<Longrightarrow>
   checkout_findOneAndUpdate q vis w = (Inl CastError, after_claim w)"
  by (simp add: checkout_findOneAndUpdate_unfold new_Date_invalid findOneAndUpdate_cast
      claim_doc_castable)

lemma checkout_findOneAndUpdate_miss:
  assumes "valid_time (timeline w (Suc (reads w)) + vis * 1000)"
    and up: "\<not> outages w (calls w)"
    and sel: "select_index (checkout_options q) (eligible (timeline w (reads w))) (queue_docs w) = None"
  shows "checkout_findOneAndUpdate q vis w = (Inr None, (after_claim w)\<lparr>calls := Suc (calls w)\<rparr>)"
  using assms
  by (simp add: checkout_findOneAndUpdate_unfold new_Date_valid findOneAndUpdate_miss
      claim_doc_castable)

lemma checkout_findOneAndUpdate_hit:
  assumes "valid_time (timeline w (Suc (reads w)) + vis * 1000)"
    and up: "\<not> outages w (calls w)"
    and sel: "select_index (checkout_options q) (eligible (timeline w (reads w))) (queue_docs w) = Some i"
  shows "checkout_findOneAndUpdate q vis w =
     (let new = claim_update (hexes w (draws w)) (timeline w (Suc (reads w)) + vis * 1000)
                  (queue_docs w ! i)
      in (Inr (Some (PlainObject new)),
          (after_claim w)\<lparr>calls := Suc (calls w), queue_docs := (queue_docs w)[i := new]\<rparr>))"
  using assms
  by (simp add: checkout_findOneAndUpdate_unfold new_Date_valid findOneAndUpdate_hit
      claim_doc_castable claim_doc_apply checkout_options_def Let_def)

lemma checkout_reject:
  "checkout_findOneAndUpdate q (js_or v (visibility (options q))) w = (Inl e, w1)
   \<Longrightarrow> checkout q v w = (Inl e, w1)"
  by (simp add: checkout.simps [of q v w])

lemma checkout_empty:
  "checkout_findOneAndUpdate q (js_or v (visibility (options q))) w = (Inr None, w1)
   \<Longrightarrow> checkout q v w = (Inr None, w1)"
  by (simp add: checkout.simps [of q v w])

lemma checkout_serve:
  "checkout_findOneAndUpdate q (js_or v (visibility (options q))) w = (Inr (Some job), w1)
   \<Longrightarrow> deadQueueModel q = None \<or> tries (job_of job) \<le> maxRetries (options q)
   \<Longrightarrow> checkout q v w =
        (case prep job (raw (options q)) w1 of (doc, w2) \<Rightarrow> (Inr (Some doc), w2))"
  by (auto simp: checkout.simps [of q v w] simp del: prep.simps)

lemma checkout_bury:
  "checkout_findOneAndUpdate q (js_or v (visibility (options q))) w = (Inr (Some job), w1)
   \<Longrightarrow> deadQueueModel q \<noteq> None \<Longrightarrow> maxRetries (options q) < tries (job_of job)
   \<Longrightarrow> checkout q v w =
        (case deadQueue_create (payload (job_of job)) (tries (job_of job)) w1 of
           (Inl e, w2) \<Rightarrow> (Inl e, w2)
         | (Inr deadJob, w2) \<Rightarrow>
             (case (case ack (job_of job) of
                      None \<Rightarrow> (Inl JobNotFound, w2)
                    | Some a \<Rightarrow> acknowledge q a w2) of
                (Inl e, w3) \<Rightarrow> (Inl e, w3)
              | (Inr ackJob, w3) \<Rightarrow>
                  (case checkout q (Some (js_or v (visibility (options q)))) w3 of
                     (Inl e, w4) \<Rightarrow> (Inl e, w4)
                   | (Inr job', w4) \<Rightarrow>
                       (case prepNullable job' (raw (options q)) w4 of
                          (doc, w5) \<Rightarrow> (Inr doc, w5)))))"
  by (auto simp: checkout.simps [of q v w, unfolded ack_method_def]
      simp del: prep.simps prepNullable.simps)

lemma checkout_induct_clean [case_names call]:
  assumes step: "\<And>q v w.
     (\<And>job w1 dj w2 a aj w3.
        checkout_findOneAndUpdate q (js_or v (visibility (options q))) w = (Inr (Some job), w1) \<Longrightarrow>
        deadQueueModel q \<noteq> None \<Longrightarrow> maxRetries (options q) < tries (job_of job) \<Longrightarrow>
        deadQueue_create (payload (job_of job)) (tries (job_of job)) w1 = (Inr dj, w2) \<Longrightarrow>
        ack (job_of job) = Some a \<Longrightarrow> acknowledge q a w2 = (Inr aj, w3) \<Longrightarrow>
        P q (Some (js_or v (visibility (options q)))) w3)
     \<Longrightarrow> P q v w"
  shows "P (q::JobQueue) (v::int option) (w::world)"
proof (induction q v w rule: checkout.induct)
  case (1 q v w)
  show ?case
  proof (rule step)
    fix job w1 dj w2 a aj w3
    assume c: "checkout_findOneAndUpdate q (js_or v (visibility (options q))) w = (Inr (Some job), w1)"
      and d: "deadQueueModel q \<noteq> None"
      and t: "maxRetries (options q) < tries (job_of job)"
      and b: "deadQueue_create (payload (job_of job)) (tries (job_of job)) w1 = (Inr dj, w2)"
      and k: "ack (job_of job) = Some a"
      and s: "acknowledge q a w2 = (Inr aj, w3)"
    from t have t': "\<not> tries (job_of job) \<le> maxRetries (options q)" by simp
    have s': "(Inr aj, w3) = (case ack (job_of job) of None \<Rightarrow> (Inl JobNotFound, w2)
                               | Some a \<Rightarrow> ack_method q a w2)"
      by (simp add: k s ack_method_def)
    show "P q (Some (js_or v (visibility (options q)))) w3"
      by (rule "1.IH" [OF refl c [symmetric] refl refl d t' b [symmetric] refl s' refl])
  qed
qed

lemma checkout_served: "served q v w (checkout q v w)"
proof (induction q v w rule: checkout_induct_clean)
  case (call q v w)
  let ?vis = "js_or v (visibility (options q))"
  obtain r w1 where c: "checkout_findOneAndUpdate q ?vis w = (r, w1)"
    by (cases "checkout_findOneAndUpdate q ?vis w")
  show ?case
  proof (cases r)
    case (Inl e)
    with c show ?thesis by (simp add: checkout_reject served.reject)
  next
    case (Inr found)
    show ?thesis
    proof (cases found)
      case None
      with c Inr show ?thesis by (simp add: checkout_empty served.empty)
    next
      case (Some job)
      with c Inr have c': "checkout_findOneAndUpdate q ?vis w = (Inr (Some job), w1)" by simp
      show ?thesis
      proof (cases "deadQueueModel q = None \<or> tries (job_of job) \<le> maxRetries (options q)")
        case True
        obtain doc w2 where p: "prep job (raw (options q)) w1 = (doc, w2)"
          by (cases "prep job (raw (options q)) w1")
        from checkout_serve [OF c' True] served.serve [OF c' True p] p show ?thesis by simp
      next
        case False
        then have d: "deadQueueModel q \<noteq> None" and t: "maxRetries (options q) < tries (job_of job)"
          by auto
        note unfold = checkout_bury [OF c' d t]
        obtain rb w2 where b: "deadQueue_create (payload (job_of job)) (tries (job_of job)) w1 = (rb, w2)"
          by (cases "deadQueue_create (payload (job_of job)) (tries (job_of job)) w1")
        show ?thesis
        proof (cases rb)
          case (Inl e)
          with b unfold served.bury_fail [OF c' d t] show ?thesis by simp
        next
          case (Inr dj)
          with b have b': "deadQueue_create (payload (job_of job)) (tries (job_of job)) w1 = (Inr dj, w2)"
            by simp
          show ?thesis
          proof (cases "ack (job_of job)")
            case None
            with unfold b' served.no_token [OF c' d t b'] show ?thesis by simp
          next
            case (Some a)
            obtain ra w3 where s: "acknowledge q a w2 = (ra, w3)"
              by (cases "acknowledge q a w2")
            show ?thesis
            proof (cases ra)
              case (Inl e)
              with s unfold b' Some served.ack_fail [OF c' d t b' Some] show ?thesis by simp
            next
              case (Inr aj)
              with s have s': "acknowledge q a w2 = (Inr aj, w3)" by simp
              obtain r4 w4 where n: "checkout q (Some ?vis) w3 = (r4, w4)"
                by (cases "checkout q (Some ?vis) w3")
              from call [OF c' d t b' Some s'] n have run: "served q (Some ?vis) w3 (r4, w4)"
                by simp
              show ?thesis
              proof (cases r4)
                case (Inl e)
                with run have "served q (Some ?vis) w3 (Inl e, w4)" by simp
                from served.retry_fail [OF c' d t b' Some s' this] unfold b' Some s' n Inl
                show ?thesis by simp
              next
                case (Inr job')
                obtain doc w5 where p: "prepNullable job' (raw (options q)) w4 = (doc, w5)"
                  by (cases "prepNullable job' (raw (options q)) w4")
                from run Inr have "served q (Some ?vis) w3 (Inr job', w4)" by simp
                from served.retry [OF c' d t b' Some s' this p] unfold b' Some s' n Inr p
                show ?thesis by simp
              qed
            qed
          qed
        qed
      qed
    qed
  qed
qed

section \<open>Deleted documents stay as they are\<close>

lemma frozen_refl [simp]: "frozen ds ds"
  by (simp add: frozen_def)

lemma frozenD:
  "frozen ds ds' \<Longrightarrow> i < length ds \<Longrightarrow> deleted (ds ! i) \<noteq> None \<Longrightarrow> ds' ! i = ds ! i"
  by (simp add: frozen_def)

lemma frozen_trans: "frozen a b \<Longrightarrow> frozen b c \<Longrightarrow> frozen a c"
  unfolding frozen_def
proof (intro conjI allI impI)
  assume ab: "length a \<le> length b \<and> (\<forall>i<length a. deleted (a ! i) \<noteq> None \<longrightarrow> b ! i = a ! i)"
    and bc: "length b \<le> length c \<and> (\<forall>i<length b. deleted (b ! i) \<noteq> None \<longrightarrow> c ! i = b ! i)"
  from ab bc show "length a \<le> length c" by simp
  fix i assume i: "i < length a" and del: "deleted (a ! i) \<noteq> None"
  from ab i del have "b ! i = a ! i" by simp
  moreover from ab i have "i < length b" by simp
  ultimately show "c ! i = a ! i" using bc del by simp
qed

lemma frozen_append [simp]: "frozen ds (ds @ es)"
  by (simp add: frozen_def nth_append)

lemma frozen_update:
  "i < length ds \<Longrightarrow> deleted (ds ! i) = None \<Longrightarrow> frozen ds (ds[i := x])"
  by (auto simp: frozen_def nth_list_update)

lemma findOneAndUpdate_frozen:
  assumes "\<And>d. query d \<Longrightarrow> deleted d = None"
  shows "frozen (queue_docs w) (queue_docs (snd (findOneAndUpdate query update opts w)))
       \<and> dead_docs (snd (findOneAndUpdate query update opts w)) = dead_docs w"
proof (cases "castable update")
  case False
  then show ?thesis by (simp add: findOneAndUpdate_cast)
next
  case True
  show ?thesis
  proof (cases "outages w (calls w)")
    case outage: True
    with True show ?thesis by (simp add: findOneAndUpdate_outage)
  next
    case up: False
    show ?thesis
    proof (cases "select_index opts query (queue_docs w)")
      case None
      with True up show ?thesis by (simp add: findOneAndUpdate_miss)
    next
      case (Some i)
      from select_index_Some [OF Some] assms have "i < length (queue_docs w)"
        "deleted (queue_docs w ! i) = None" by auto
      with True up Some show ?thesis by (simp add: findOneAndUpdate_hit frozen_update)
    qed
  qed
qed

lemma leased_live: "leased q a t d \<Longrightarrow> deleted d = None"
  by (simp add: leased_def)

lemma eligible_live: "eligible t d \<Longrightarrow> deleted d = None"
  by (simp add: eligible_def)

lemma prepD:
  "prep doc rw w = (d, w') \<Longrightarrow> queue_docs w' = queue_docs w \<and> dead_docs w' = dead_docs w"
  by (auto split: if_splits handle.splits)

lemma prepNullableD:
  "prepNullable r rw w = (d, w') \<Longrightarrow> queue_docs w' = queue_docs w \<and> dead_docs w' = dead_docs w"
  by (cases r) (auto split: if_splits handle.splits)

lemma prepArrayD:
  "prepArray ds rw w = (ds', w') \<Longrightarrow> queue_docs w' = queue_docs w \<and> dead_docs w' = dead_docs w"
proof (induction ds arbitrary: w ds' w')
  case Nil
  then show ?case by simp
next
  case (Cons d ds)
  show ?case
  proof (cases rw)
    case False
    with Cons.prems show ?thesis by simp
  next
    case True
    obtain d1 w1 where p: "prep d rw w = (d1, w1)" by (cases "prep d rw w")
    obtain ds2 w2 where r: "prepArray ds rw w1 = (ds2, w2)" by (cases "prepArray ds rw w1")
    from Cons.prems True p r have "w' = w2" by (simp del: prep.simps)
    with prepD [OF p] Cons.IH [OF r] show ?thesis by simp
  qed
qed

lemma ping_frozen:
  "frozen (queue_docs w) (queue_docs (snd (ping q a v p pl w)))
   \<and> dead_docs (snd (ping q a v p pl w)) = dead_docs w"
proof -
  let ?w2 = "(after_query q w)\<lparr>reads := Suc (reads (after_query q w))\<rparr>"
  let ?f = "findOneAndUpdate (leased q a (timeline w (reads w)))
              (ping_doc p pl (new_Date (ping_deadline q v w))) (ping_options q) ?w2"
  have "queue_docs (snd (ping q a v p pl w)) = queue_docs (snd ?f)
      \<and> dead_docs (snd (ping q a v p pl w)) = dead_docs (snd ?f)"
    by (auto simp: ping_unfold Let_def ping_deadline_def simp del: prepNullable.simps
        split: prod.splits sum.splits dest: prepNullableD)
  moreover have "frozen (queue_docs ?w2) (queue_docs (snd ?f)) \<and> dead_docs (snd ?f) = dead_docs ?w2"
    by (rule findOneAndUpdate_frozen) (rule leased_live)
  ultimately show ?thesis by simp
qed

lemma acknowledge_frozen:
  "frozen (queue_docs w) (queue_docs (snd (acknowledge q a w)))
   \<and> dead_docs (snd (acknowledge q a w)) = dead_docs w"
proof -
  let ?w2 = "(after_query q w)\<lparr>reads := Suc (reads (after_query q w))\<rparr>"
  let ?f = "findOneAndUpdate (leased q a (timeline w (reads w)))
              (no_update\<lparr>set_deleted := Some (Date (timeline w (reads (after_query q w))))\<rparr>)
              (acknowledge_options q) ?w2"
  have "queue_docs (snd (acknowledge q a w)) = queue_docs (snd ?f)
      \<and> dead_docs (snd (acknowledge q a w)) = dead_docs (snd ?f)"
    by (auto simp: acknowledge_unfold Let_def simp del: prep.simps
        split: prod.splits sum.splits option.splits dest: prepD)
  moreover have "frozen (queue_docs ?w2) (queue_docs (snd ?f)) \<and> dead_docs (snd ?f) = dead_docs ?w2"
    by (rule findOneAndUpdate_frozen) (rule leased_live)
  ultimately show ?thesis by simp
qed

lemma checkout_findOneAndUpdate_frozen:
  "frozen (queue_docs w) (queue_docs (snd (checkout_findOneAndUpdate q vis w)))
   \<and> dead_docs (snd (checkout_findOneAndUpdate q vis w)) = dead_docs w"
  using findOneAndUpdate_frozen [of "eligible (timeline w (reads w))" "after_claim w"
      "claim_doc (hexes w (draws w)) (new_Date (timeline w (Suc (reads w)) + vis * 1000))"
      "checkout_options q"]
  by (simp add: checkout_findOneAndUpdate_unfold eligible_live)

lemma deadQueue_create_frozen:
  "queue_docs (snd (deadQueue_create p n w)) = queue_docs w
   \<and> frozen (dead_docs w) (dead_docs (snd (deadQueue_create p n w)))"
  by (simp add: deadQueue_create_def now_def Let_def)

lemma save_each_appends:
  "save_each n ins w = (rs, w') \<Longrightarrow>
   (\<exists>es. queue_docs w' = queue_docs w @ es) \<and> dead_docs w' = dead_docs w"
proof (induction ins arbitrary: n w rs w')
  case Nil
  then show ?case by simp
next
  case (Cons x ins)
  obtain v p where x: "x = (v, p)" by (cases x)
  show ?case
  proof (cases v)
    case InvalidDate
    obtain rs1 w1 where r: "save_each (Suc n) ins w = (rs1, w1)"
      by (cases "save_each (Suc n) ins w")
    from Cons.prems x InvalidDate r have "w' = w1" by simp
    with Cons.IH [OF r] show ?thesis by simp
  next
    case (Date t)
    show ?thesis
    proof (cases "missing p")
      case True
      obtain rs1 w1 where r: "save_each (Suc n) ins w = (rs1, w1)"
        by (cases "save_each (Suc n) ins w")
      from Cons.prems x Date True r have "w' = w1" by simp
      with Cons.IH [OF r] show ?thesis by simp
    next
      case False
      let ?doc = "\<lparr>oid = n, payload = p, visible = t, tries = 0, ack = None, deleted = None,
                    progress = None\<rparr>"
      let ?w1 = "w\<lparr>calls := Suc (calls w)\<rparr>"
      show ?thesis
      proof (cases "outages w (calls w)")
        case True
        obtain rs1 w1 where r: "save_each (Suc n) ins ?w1 = (rs1, w1)"
          by (cases "save_each (Suc n) ins ?w1")
        from Cons.prems x Date False True r have "w' = w1" by (simp add: Let_def)
        with Cons.IH [OF r] show ?thesis by simp
      next
        case up: False
        let ?w2 = "?w1\<lparr>queue_docs := queue_docs w @ [toObject ?doc]\<rparr>"
        obtain rs1 w1 where r: "save_each (Suc n) ins ?w2 = (rs1, w1)"
          by (cases "save_each (Suc n) ins ?w2")
        from Cons.prems x Date False up r have "w' = w1" by (simp add: Let_def)
        with Cons.IH [OF r] show ?thesis by auto
      qed
    qed
  qed
qed

lemma queue_create_frozen:
  "queue_create inserts w = (r, w') \<Longrightarrow>
   frozen (queue_docs w) (queue_docs w') \<and> dead_docs w' = dead_docs w"
proof -
  assume c: "queue_create inserts w = (r, w')"
  obtain rs w1 where s: "save_each (next_oid w) inserts w = (rs, w1)"
    by (cases "save_each (next_oid w) inserts w")
  from c s have "queue_docs w' = queue_docs w1" "dead_docs w' = dead_docs w1"
    by (auto simp: queue_create_def Let_def split: option.splits)
  with save_each_appends [OF s] show ?thesis by auto
qed

lemma add_frozen:
  "frozen (queue_docs w) (queue_docs (snd (add q pl d w)))
   \<and> dead_docs (snd (add q pl d w)) = dead_docs w"
proof -
  obtain vis w1 where v: "(if js_or d (delay (options q)) \<noteq> 0
                           then nowPlusSecs (js_or d (delay (options q))) w
                           else (case now w of (t, w') \<Rightarrow> (Date t, w'))) = (vis, w1)"
    by (cases "(if js_or d (delay (options q)) \<noteq> 0
                then nowPlusSecs (js_or d (delay (options q))) w
                else (case now w of (t, w') \<Rightarrow> (Date t, w')))")
  then have w1: "queue_docs w1 = queue_docs w" "dead_docs w1 = dead_docs w"
    by (auto simp: now_def nowPlusSecs_def split: if_splits)
  have "frozen (queue_docs w1) (queue_docs (snd (add q pl d w)))
      \<and> dead_docs (snd (add q pl d w)) = dead_docs w1"
    using v
    by (auto simp: add_def Let_def simp del: prep.simps prepArray.simps
        split: jsval.splits prod.splits sum.splits option.splits if_splits
        dest!: queue_create_frozen prepD prepArrayD)
  with w1 show ?thesis by simp
qed

lemma peek_frozen:
  "queue_docs (snd (peek q w)) = queue_docs w \<and> dead_docs (snd (peek q w)) = dead_docs w"
  by (auto simp: peek_def findOne_def now_def Let_def simp del: prepNullable.simps
      split: prod.splits sum.splits option.splits if_splits dest!: prepNullableD)

lemma served_frozen:
  "served q v w res \<Longrightarrow>
   frozen (queue_docs w) (queue_docs (snd res)) \<and> frozen (dead_docs w) (dead_docs (snd res))"
proof (induction rule: served.induct)
  case (reject q v w e w1)
  with checkout_findOneAndUpdate_frozen [of w q "js_or v (visibility (options q))"]
  show ?case by simp
next
  case (empty q v w w1)
  with checkout_findOneAndUpdate_frozen [of w q "js_or v (visibility (options q))"]
  show ?case by simp
next
  case (serve q v w job w1 doc w2)
  with checkout_findOneAndUpdate_frozen [of w q "js_or v (visibility (options q))"]
    prepD [of job "raw (options q)" w1 doc w2]
  show ?case by simp
next
  case (bury_fail q v w job w1 e w2)
  with checkout_findOneAndUpdate_frozen [of w q "js_or v (visibility (options q))"]
    deadQueue_create_frozen [of "payload (job_of job)" "tries (job_of job)" w1]
  show ?case by simp
next
  case (no_token q v w job w1 dj w2)
  with checkout_findOneAndUpdate_frozen [of w q "js_or v (visibility (options q))"]
    deadQueue_create_frozen [of "payload (job_of job)" "tries (job_of job)" w1]
  show ?case by simp
next
  case (ack_fail q v w job w1 dj w2 a e w3)
  with checkout_findOneAndUpdate_frozen [of w q "js_or v (visibility (options q))"]
    deadQueue_create_frozen [of "payload (job_of job)" "tries (job_of job)" w1]
    acknowledge_frozen [of w2 q a]
  show ?case by (auto intro: frozen_trans)
next
  case (retry_fail q v w job w1 dj w2 a aj w3 e w4)
  with checkout_findOneAndUpdate_frozen [of w q "js_or v (visibility (options q))"]
    deadQueue_create_frozen [of "payload (job_of job)" "tries (job_of job)" w1]
    acknowledge_frozen [of w2 q a]
  have "frozen (queue_docs w) (queue_docs w3)" "frozen (dead_docs w) (dead_docs w3)"
    by (auto intro: frozen_trans)
  with retry_fail.IH show ?case by (auto intro: frozen_trans)
next
  case (retry q v w job w1 dj w2 a aj w3 job' w4 doc w5)
  with checkout_findOneAndUpdate_frozen [of w q "js_or v (visibility (options q))"]
    deadQueue_create_frozen [of "payload (job_of job)" "tries (job_of job)" w1]
    acknowledge_frozen [of w2 q a]
  have "frozen (queue_docs w) (queue_docs w3)" "frozen (dead_docs w) (dead_docs w3)"
    by (auto intro: frozen_trans)
  with retry.IH prepNullableD [OF retry.hyps(8)] show ?case by (auto intro: frozen_trans)
qed

lemma checkout_frozen:
  "frozen (queue_docs w) (queue_docs (snd (checkout q v w)))
   \<and> frozen (dead_docs w) (dead_docs (snd (checkout q v w)))"
  by (rule served_frozen [OF checkout_served])

section \<open>The concrete inputs are states the engine reaches\<close>

lemma built_queue_constructed: "constructor True ''queue'' Map.empty = Inr built_queue"
  by (simp add: constructor_def built_queue_def buildModel_def default_options_def Let_def)

lemmas run_defs = add_def built_queue_def calm_world_def default_options_def
      js_or_def now_def nowPlusSecs_def new_Date_def valid_time_def id_hex_def queue_create_def first_error_def missing_def
      toObject_def plain_job_def checkout_findOneAndUpdate_def findOneAndUpdate_def castable_def apply_update_def no_update_def
      select_index_def checkout_options_def acknowledge_def acknowledge_options_def Let_def

lemma stocked_world_reached:
  "snd (add built_queue (JArr [JStr ''One'', JStr ''Two'']) None calm_world) = stocked_world"
  by (simp add: run_defs stocked_world_def)

lemma leased_world_reached:
  "snd (checkout built_queue None (snd (add built_queue (JStr ''Hey'') None calm_world)))
     = leased_world"
  by (simp add: checkout.simps run_defs leased_world_def claimed_job_def)

lemma settled_world_reached:
  "snd (add built_queue (JStr ''Two'') None (snd (acknowledge built_queue ''a'' leased_world)))
     = settled_world"
  by (simp add: run_defs leased_world_def settled_world_def done_job_def claimed_job_def)

lemma turn_added: "snd (add built_queue (JStr ''One'') None slow_world) = turn 0"
  by (simp add: run_defs slow_world_def turn_def)

lemma turn_step:
  assumes "k < 10"
  shows "checkout built_queue None (turn k)
           = (Inr (Some (PlainObject (hd (queue_docs (turn (Suc k)))))), turn (Suc k))"
proof -
  let ?w = "turn k"
  let ?vis = "js_or None (visibility (options built_queue))"
  have vis: "?vis = 30"
    by (simp add: js_or_def built_queue_def default_options_def)
  have up: "\<not> outages ?w (calls ?w)"
    by (simp add: turn_def slow_world_def calm_world_def)
  have sel: "select_index (checkout_options built_queue) (eligible (timeline ?w (reads ?w)))
               (queue_docs ?w) = Some 0"
    by (simp add: turn_def slow_world_def calm_world_def select_index_def checkout_options_def
        eligible_def)
  have valid: "valid_time (timeline ?w (Suc (reads ?w)) + ?vis * 1000)"
    using assms by (simp add: vis turn_def slow_world_def calm_world_def valid_time_def)
  have new: "claim_update (hexes ?w (draws ?w)) (timeline ?w (Suc (reads ?w)) + ?vis * 1000)
               (queue_docs ?w ! 0) = hd (queue_docs (turn (Suc k)))"
    by (simp add: vis turn_def slow_world_def calm_world_def claim_update_def)
  have next_world: "(after_claim ?w)\<lparr>calls := Suc (calls ?w),
                      queue_docs := (queue_docs ?w)[0 := hd (queue_docs (turn (Suc k)))]\<rparr>
                    = turn (Suc k)"
    by (simp add: turn_def slow_world_def calm_world_def after_claim_def)
  from checkout_findOneAndUpdate_hit [OF valid up sel] new next_world
  have step: "checkout_findOneAndUpdate built_queue ?vis ?w
                = (Inr (Some (PlainObject (hd (queue_docs (turn (Suc k)))))), turn (Suc k))"
    by (simp add: Let_def)
  have "deadQueueModel built_queue = None \<or>
          tries (job_of (PlainObject (hd (queue_docs (turn (Suc k)))))) \<le> maxRetries (options built_queue)"
    by (simp add: built_queue_def)
  from checkout_serve [OF step this] show ?thesis by simp
qed


section \<open>Construction\<close>

text \<open>
  C1. The specification asks that every recognised option supplied to the constructor
  takes effect, the effective configuration mapping each supplied key to the supplied
  value. The constructor does not do this: for every options object the queue is built
  with the literal defaults and without a dead queue, and with \<open>{visibility: 15}\<close>
  supplied the effective visibility is still 30.
\<close>

theorem constructor_keeps_defaults:
  "constructor True nm opts =
     (if nm = [] then Inl NoQueueName
      else Inr \<lparr>name = nm, options = default_options, queue = Model nm,
                deadQueueModel = None\<rparr>)
   \<and> (case constructor True ''queue'' [''visibility'' \<mapsto> JNum 15] of
        Inl e \<Rightarrow> False
      | Inr q \<Rightarrow> properties (options q) ''visibility'' = Some (JNum 30))"
  by (simp add: constructor_def default_options_def buildModel_def properties_def Let_def)

section \<open>add\<close>

text \<open>
  C6. The specification asks that a list input of any length, one element included,
  resolves with the list of created records. \<open>add\<close> decides on the number of inserts,
  so a list of exactly one payload resolves with the bare record, as a single payload
  does.
\<close>

theorem add_singleton_list_returns_bare_record:
  "fst (add built_queue (JArr [JStr ''One'']) None calm_world)
     = Inr (One (PlainObject (plain_job 0 (JStr ''One'') 1000)))"
  by (simp add: run_defs)

section \<open>The ordering option\<close>

text \<open>
  C9. The specification asks that with the \<open>cosmosDb\<close> option enabled \<open>checkout\<close>
  issues its find-and-update without the sort. \<open>checkout\<close> always sorts by \<open>_id\<close>: the
  options of the call do not depend on the queue, and on a collection whose natural
  order is \<open>_id\<close> 7 before \<open>_id\<close> 3 a queue with \<open>cosmosDb = true\<close> still claims
  \<open>_id\<close> 3.
\<close>

theorem checkout_sorts_in_cosmosDb_mode:
  "sort_id (checkout_options (q\<lparr>options := (options q)\<lparr>cosmosDb := True\<rparr>\<rparr>))
   \<and> fst (checkout
           (built_queue\<lparr>options := default_options\<lparr>cosmosDb := True\<rparr>\<rparr>)
           None
           (calm_world\<lparr>queue_docs :=
              [plain_job 7 (JStr ''late'') 0, plain_job 3 (JStr ''early'') 0]\<rparr>))
     = Inr (Some (PlainObject
         ((plain_job 3 (JStr ''early'') 31001)\<lparr>tries := 1, ack := Some ''a''\<rparr>)))"
  by (simp add: checkout.simps run_defs)

section \<open>Visibility 0\<close>

text \<open>
  C10. A visibility argument of 0 passed to \<open>checkout\<close> or \<open>ping\<close> counts as absent: the
  deadline written is the clock reading plus the configured visibility (in ms), not
  the clock reading itself. When the store answers and that deadline is a valid date,
  \<open>checkout(0)\<close> resolves with the eligible document of least \<open>_id\<close>, its \<open>visible\<close> set to
  that deadline (whenever no dead queue is set or the new \<open>tries\<close> is within
  \<open>maxRetries\<close>), and \<open>ping(token, 0)\<close> resolves with the matching document of least
  \<open>_id\<close>, its \<open>visible\<close> set to that deadline; both write the document back. So a lease
  of zero seconds results only where the configured visibility is itself 0.
\<close>

theorem zero_visibility_uses_configured:
  assumes up: "\<not> outages w (calls w)"
  shows "((\<exists>d\<in>set (queue_docs w). eligible (timeline w (reads w)) d)
          \<and> valid_time (timeline w (Suc (reads w)) + visibility (options q) * 1000)
          \<longrightarrow> (\<exists>i<length (queue_docs w).
                 eligible (timeline w (reads w)) (queue_docs w ! i)
               \<and> (\<forall>k<length (queue_docs w). eligible (timeline w (reads w)) (queue_docs w ! k)
                     \<longrightarrow> oid (queue_docs w ! i) \<le> oid (queue_docs w ! k))
               \<and> (let old = queue_docs w ! i;
                       new = old\<lparr>ack := Some (hexes w (draws w)),
                                 visible := timeline w (Suc (reads w))
                                              + visibility (options q) * 1000,
                                 tries := tries old + 1\<rparr>
                   in (deadQueueModel q = None \<or> tries new \<le> maxRetries (options q)
                        \<longrightarrow> fst (checkout q (Some 0) w) = Inr (Some (PlainObject new))
                          \<and> queue_docs (snd (checkout q (Some 0) w)) = (queue_docs w)[i := new])
                    \<and> (visibility (options q) \<noteq> 0
                        \<longrightarrow> visible new \<noteq> timeline w (Suc (reads w))))))
       \<and> ((\<exists>d\<in>set (queue_docs w). leased q a (timeline w (reads w)) d)
          \<and> valid_time (timeline w (reads (after_query q w)) + visibility (options q) * 1000)
          \<longrightarrow> (\<exists>i<length (queue_docs w).
                 leased q a (timeline w (reads w)) (queue_docs w ! i)
               \<and> (\<forall>k<length (queue_docs w). leased q a (timeline w (reads w)) (queue_docs w ! k)
                     \<longrightarrow> oid (queue_docs w ! i) \<le> oid (queue_docs w ! k))
               \<and> (let new = ping_update percentArg pl
                               (timeline w (reads (after_query q w))
                                  + visibility (options q) * 1000)
                               (queue_docs w ! i)
                   in fst (ping q a (Some 0) percentArg pl w) = Inr (Some (PlainObject new))
                    \<and> queue_docs (snd (ping q a (Some 0) percentArg pl w))
                        = (queue_docs w)[i := new]
                    \<and> visible new
                        = timeline w (reads (after_query q w)) + visibility (options q) * 1000
                    \<and> (visibility (options q) \<noteq> 0
                        \<longrightarrow> visible new \<noteq> timeline w (reads (after_query q w))))))"
proof -
  have zero: "js_or (Some 0) (visibility (options q)) = visibility (options q)"
    by (simp add: js_or_def)
  have part1: "\<exists>i<length (queue_docs w).
                 eligible (timeline w (reads w)) (queue_docs w ! i)
               \<and> (\<forall>k<length (queue_docs w). eligible (timeline w (reads w)) (queue_docs w ! k)
                     \<longrightarrow> oid (queue_docs w ! i) \<le> oid (queue_docs w ! k))
               \<and> (let old = queue_docs w ! i;
                       new = old\<lparr>ack := Some (hexes w (draws w)),
                                 visible := timeline w (Suc (reads w))
                                              + visibility (options q) * 1000,
                                 tries := tries old + 1\<rparr>
                   in (deadQueueModel q = None \<or> tries new \<le> maxRetries (options q)
                        \<longrightarrow> fst (checkout q (Some 0) w) = Inr (Some (PlainObject new))
                          \<and> queue_docs (snd (checkout q (Some 0) w)) = (queue_docs w)[i := new])
                    \<and> (visibility (options q) \<noteq> 0
                        \<longrightarrow> visible new \<noteq> timeline w (Suc (reads w))))"
    if some: "\<exists>d\<in>set (queue_docs w). eligible (timeline w (reads w)) d"
      and valid: "valid_time (timeline w (Suc (reads w)) + visibility (options q) * 1000)"
  proof -
    let ?P = "eligible (timeline w (reads w))"
    let ?vis = "js_or (Some 0) (visibility (options q))"
    from valid zero have valid': "valid_time (timeline w (Suc (reads w)) + ?vis * 1000)" by simp
    from some obtain i where sel: "select_index (checkout_options q) ?P (queue_docs w) = Some i"
      using select_index_ex [of "queue_docs w" ?P "checkout_options q"] by blast
    from select_index_Some [OF sel] have i: "i < length (queue_docs w)" "?P (queue_docs w ! i)"
      by simp_all
    have least: "\<forall>k<length (queue_docs w). ?P (queue_docs w ! k)
                   \<longrightarrow> oid (queue_docs w ! i) \<le> oid (queue_docs w ! k)"
      using select_index_least [OF _ sel] by (simp add: checkout_options_def)
    let ?new = "claim_update (hexes w (draws w))
                  (timeline w (Suc (reads w)) + visibility (options q) * 1000) (queue_docs w ! i)"
    let ?w1 = "(after_claim w)\<lparr>calls := Suc (calls w), queue_docs := (queue_docs w)[i := ?new]\<rparr>"
    have step: "checkout_findOneAndUpdate q ?vis w = (Inr (Some (PlainObject ?new)), ?w1)"
      using checkout_findOneAndUpdate_hit [OF valid' up sel] by (simp add: Let_def zero)
    have served: "checkout q (Some 0) w = (Inr (Some (PlainObject ?new)), ?w1)"
      if "deadQueueModel q = None \<or> tries ?new \<le> maxRetries (options q)"
      using checkout_serve [OF step] that by simp
    have res: "(let old = queue_docs w ! i;
                       new = old\<lparr>ack := Some (hexes w (draws w)),
                                 visible := timeline w (Suc (reads w))
                                              + visibility (options q) * 1000,
                                 tries := tries old + 1\<rparr>
                   in (deadQueueModel q = None \<or> tries new \<le> maxRetries (options q)
                        \<longrightarrow> fst (checkout q (Some 0) w) = Inr (Some (PlainObject new))
                          \<and> queue_docs (snd (checkout q (Some 0) w)) = (queue_docs w)[i := new])
                    \<and> (visibility (options q) \<noteq> 0
                        \<longrightarrow> visible new \<noteq> timeline w (Suc (reads w))))"
      using served by (auto simp: Let_def claim_update_def)
    from i least res show ?thesis by blast
  qed
  have part2: "\<exists>i<length (queue_docs w).
                 leased q a (timeline w (reads w)) (queue_docs w ! i)
               \<and> (\<forall>k<length (queue_docs w). leased q a (timeline w (reads w)) (queue_docs w ! k)
                     \<longrightarrow> oid (queue_docs w ! i) \<le> oid (queue_docs w ! k))
               \<and> (let new = ping_update percentArg pl
                               (timeline w (reads (after_query q w))
                                  + visibility (options q) * 1000)
                               (queue_docs w ! i)
                   in fst (ping q a (Some 0) percentArg pl w) = Inr (Some (PlainObject new))
                    \<and> queue_docs (snd (ping q a (Some 0) percentArg pl w))
                        = (queue_docs w)[i := new]
                    \<and> visible new
                        = timeline w (reads (after_query q w)) + visibility (options q) * 1000
                    \<and> (visibility (options q) \<noteq> 0
                        \<longrightarrow> visible new \<noteq> timeline w (reads (after_query q w))))"
    if match: "\<exists>d\<in>set (queue_docs w). leased q a (timeline w (reads w)) d"
      and valid: "valid_time (timeline w (reads (after_query q w)) + visibility (options q) * 1000)"
  proof -
    let ?P = "leased q a (timeline w (reads w))"
    have dl: "ping_deadline q (Some 0) w
                = timeline w (reads (after_query q w)) + visibility (options q) * 1000"
      by (simp add: ping_deadline_def zero)
    from valid dl have valid': "valid_time (ping_deadline q (Some 0) w)" by simp
    from match obtain i where sel: "select_index (ping_options q) ?P (queue_docs w) = Some i"
      using select_index_ex [of "queue_docs w" ?P "ping_options q"] by blast
    from select_index_Some [OF sel] have i: "i < length (queue_docs w)" "?P (queue_docs w ! i)"
      by simp_all
    have least: "\<forall>k<length (queue_docs w). ?P (queue_docs w ! k)
                   \<longrightarrow> oid (queue_docs w ! i) \<le> oid (queue_docs w ! k)"
      using select_index_least [OF _ sel] by (simp add: ping_options_def)
    have res: "(let new = ping_update percentArg pl
                               (timeline w (reads (after_query q w))
                                  + visibility (options q) * 1000)
                               (queue_docs w ! i)
                   in fst (ping q a (Some 0) percentArg pl w) = Inr (Some (PlainObject new))
                    \<and> queue_docs (snd (ping q a (Some 0) percentArg pl w))
                        = (queue_docs w)[i := new]
                    \<and> visible new
                        = timeline w (reads (after_query q w)) + visibility (options q) * 1000
                    \<and> (visibility (options q) \<noteq> 0
                        \<longrightarrow> visible new \<noteq> timeline w (reads (after_query q w))))"
      by (simp add: ping_hit [OF valid' up sel] Let_def dl ping_update_def)
    from i least res show ?thesis by blast
  qed
  from part1 part2 show ?thesis by blast
qed

text \<open>
  C10 on the two fresh jobs and on the leased job, with the configured visibility 30:
  \<open>checkout(0)\<close> claims the older job until 1004 + 30000, and \<open>ping('a', 0)\<close> renews the
  lease until 1005 + 30000.
\<close>

theorem zero_visibility_uses_configured_witness:
  "fst (checkout built_queue (Some 0) stocked_world)
     = Inr (Some (PlainObject ((plain_job 0 (JStr ''One'') 31004)\<lparr>tries := 1, ack := Some ''a''\<rparr>)))
   \<and> fst (ping built_queue ''a'' (Some 0) None JUndefined leased_world)
     = Inr (Some (PlainObject (claimed_job\<lparr>visible := 31005\<rparr>)))
   \<and> queue_docs (snd (ping built_queue ''a'' (Some 0) None JUndefined leased_world))
     = [claimed_job\<lparr>visible := 31005\<rparr>]"
proof -
  have up1: "\<not> outages stocked_world (calls stocked_world)"
    by (simp add: stocked_world_def calm_world_def)
  have up2: "\<not> outages leased_world (calls leased_world)"
    by (simp add: leased_world_def calm_world_def)
  note c = zero_visibility_uses_configured
             [OF up1, where q = built_queue and a = "''a''" and percentArg = None
                and pl = JUndefined]
  note p = zero_visibility_uses_configured
             [OF up2, where q = built_queue and a = "''a''" and percentArg = None
                and pl = JUndefined]
  from c p show ?thesis
    by (simp add: checkout.simps ping_def ping_options_def run_defs stocked_world_def
        leased_world_def claimed_job_def)
qed

section \<open>ping\<close>

text \<open>
  C5 (amended). When no document satisfies the selection predicate of \<open>ping\<close> (matching
  token, not deleted and, in strict mode, lease not expired), \<open>ping\<close> changes neither
  collection and never fails with a not-found error: when the new deadline (the clock
  reading plus the visibility in ms) is a valid date and the store answers, it resolves
  with \<open>null\<close>; when the store rejects the call it fails with the storage error; when
  the deadline is not a valid date it fails with the cast error.
\<close>

theorem ping_without_match_resolves_null:
  assumes none: "\<forall>d\<in>set (queue_docs w). \<not> leased q a (timeline w (reads w)) d"
  shows "(valid_time (ping_deadline q visibilityArg w) \<and> \<not> outages w (calls w)
            \<longrightarrow> fst (ping q a visibilityArg percentArg pl w) = Inr None)
       \<and> (valid_time (ping_deadline q visibilityArg w) \<and> outages w (calls w)
            \<longrightarrow> fst (ping q a visibilityArg percentArg pl w) = Inl StoreError)
       \<and> (\<not> valid_time (ping_deadline q visibilityArg w)
            \<longrightarrow> fst (ping q a visibilityArg percentArg pl w) = Inl CastError)
       \<and> queue_docs (snd (ping q a visibilityArg percentArg pl w)) = queue_docs w
       \<and> dead_docs (snd (ping q a visibilityArg percentArg pl w)) = dead_docs w"
proof (cases "valid_time (ping_deadline q visibilityArg w)")
  case False
  then show ?thesis by (simp add: ping_cast)
next
  case True
  from none have sel: "select_index (ping_options q) (leased q a (timeline w (reads w)))
                         (queue_docs w) = None"
    by (simp add: select_index_None)
  show ?thesis
  proof (cases "outages w (calls w)")
    case up: False
    from ping_miss [OF True up sel] True up show ?thesis by simp
  next
    case outage: True
    have "ping q a visibilityArg percentArg pl w
            = (Inl StoreError, (after_query q w)\<lparr>reads := Suc (reads (after_query q w)),
                                                calls := Suc (calls w)\<rparr>)"
      using True outage
      by (simp add: ping_unfold Let_def ping_deadline_def new_Date_valid findOneAndUpdate_outage
          ping_doc_castable)
    with True outage show ?thesis by simp
  qed
qed

text \<open>The amended C5 at a world whose only job is leased under another token.\<close>

theorem ping_without_match_resolves_null_witness:
  "fst (ping built_queue ''zz'' (Some 60) None JUndefined leased_world) = Inr None
   \<and> queue_docs (snd (ping built_queue ''zz'' (Some 60) None JUndefined leased_world))
       = [claimed_job]"
proof -
  have none: "\<forall>d\<in>set (queue_docs leased_world).
                \<not> leased built_queue ''zz'' (timeline leased_world (reads leased_world)) d"
    by (simp add: leased_world_def calm_world_def claimed_job_def plain_job_def leased_def)
  have valid: "valid_time (ping_deadline built_queue (Some 60) leased_world)"
    by (simp add: ping_deadline_def valid_time_def after_query_def built_queue_def
        default_options_def js_or_def leased_world_def calm_world_def)
  have up: "\<not> outages leased_world (calls leased_world)"
    by (simp add: leased_world_def calm_world_def)
  from ping_without_match_resolves_null
         [OF none, where visibilityArg = "Some 60" and percentArg = None and pl = JUndefined]
       valid up
  show ?thesis by (simp add: leased_world_def)
qed

text \<open>
  C5 as first stated (such a \<open>ping\<close> fails) does not hold: a \<open>ping\<close> with a token no
  document carries completes successfully with an empty result.
\<close>

theorem ping_unknown_token_counterexample:
  "\<not> list_ex (leased built_queue ''unknown'' 1004) (queue_docs leased_world)
   \<and> fst (ping built_queue ''unknown'' None None JUndefined leased_world) = Inr None"
  by (simp add: ping_def ping_options_def run_defs leased_world_def claimed_job_def leased_def)

text \<open>
  C7. The specification asks that a progress value in 0..100 supplied to \<open>ping\<close>, 0
  included, is written to the matched record. \<open>ping\<close> writes the progress only when it
  is truthy: on the leased job with stored progress 50, a ping that supplies progress 0
  renews the lease and resolves with progress still 50.
\<close>

theorem ping_ignores_progress_zero:
  "fst (ping built_queue ''a'' None (Some 0) JUndefined
          (leased_world\<lparr>queue_docs := [claimed_job\<lparr>progress := Some 50\<rparr>]\<rparr>))
     = Inr (Some (PlainObject (claimed_job\<lparr>visible := 31005, progress := Some 50\<rparr>)))"
  by (simp add: ping_def ping_options_def run_defs leased_world_def claimed_job_def)

section \<open>acknowledge\<close>

text \<open>
  C4. When the store answers the call, \<open>acknowledge\<close> succeeds if and only if some
  document carries the token, is not deleted and, in strict mode, has \<open>visible\<close> after
  the clock reading of the query. When it succeeds it resolves with the matching
  document of least \<open>_id\<close>, whose \<open>deleted\<close> it has set to the clock reading of the update,
  and changes no other document. When no document matches it rejects with the
  not-found error and changes nothing. When at most one document carries the token and
  the clock does not run backwards, a second \<open>acknowledge\<close> of the same token right
  after the first is rejected.
\<close>

theorem acknowledge_iff_leased:
  assumes up: "\<not> outages w (calls w)"
  shows "((\<exists>h. fst (acknowledge q a w) = Inr h)
            \<longleftrightarrow> (\<exists>d\<in>set (queue_docs w). leased q a (timeline w (reads w)) d))
       \<and> ((\<forall>d\<in>set (queue_docs w). \<not> leased q a (timeline w (reads w)) d)
            \<longrightarrow> fst (acknowledge q a w) = Inl JobNotFound
              \<and> queue_docs (snd (acknowledge q a w)) = queue_docs w)
       \<and> ((\<exists>d\<in>set (queue_docs w). leased q a (timeline w (reads w)) d)
            \<longrightarrow> (\<exists>i<length (queue_docs w).
                   leased q a (timeline w (reads w)) (queue_docs w ! i)
                 \<and> (\<forall>k<length (queue_docs w).
                       leased q a (timeline w (reads w)) (queue_docs w ! k)
                       \<longrightarrow> oid (queue_docs w ! i) \<le> oid (queue_docs w ! k))
                 \<and> (let new = (queue_docs w ! i)
                                 \<lparr>deleted := Some (timeline w (reads (after_query q w)))\<rparr>
                     in fst (acknowledge q a w) = Inr (PlainObject new)
                      \<and> queue_docs (snd (acknowledge q a w)) = (queue_docs w)[i := new])))
       \<and> (sole_holder a (queue_docs w) \<and> mono (timeline w)
            \<longrightarrow> (\<exists>e. fst (acknowledge q a (snd (acknowledge q a w))) = Inl e))"
proof -
  let ?P = "leased q a (timeline w (reads w))"
  let ?sel = "select_index (acknowledge_options q) ?P (queue_docs w)"
  have miss: "fst (acknowledge q a w) = Inl JobNotFound
                \<and> queue_docs (snd (acknowledge q a w)) = queue_docs w"
    if "\<forall>d\<in>set (queue_docs w). \<not> ?P d"
  proof -
    from that have "?sel = None" by (simp add: select_index_None)
    from acknowledge_miss [OF up this] show ?thesis by simp
  qed
  have hit: "\<exists>i<length (queue_docs w). ?P (queue_docs w ! i)
               \<and> (\<forall>k<length (queue_docs w). ?P (queue_docs w ! k)
                     \<longrightarrow> oid (queue_docs w ! i) \<le> oid (queue_docs w ! k))
               \<and> (let new = (queue_docs w ! i)
                               \<lparr>deleted := Some (timeline w (reads (after_query q w)))\<rparr>
                   in fst (acknowledge q a w) = Inr (PlainObject new)
                    \<and> queue_docs (snd (acknowledge q a w)) = (queue_docs w)[i := new])"
    if "\<exists>d\<in>set (queue_docs w). ?P d"
  proof -
    from that obtain i where sel: "?sel = Some i"
      using select_index_ex [of "queue_docs w" ?P "acknowledge_options q"] by blast
    from select_index_Some [OF sel] have i: "i < length (queue_docs w)" "?P (queue_docs w ! i)"
      by simp_all
    have least: "\<forall>k<length (queue_docs w). ?P (queue_docs w ! k)
                   \<longrightarrow> oid (queue_docs w ! i) \<le> oid (queue_docs w ! k)"
      using select_index_least [OF _ sel] by (simp add: acknowledge_options_def)
    have res: "(let new = (queue_docs w ! i)
                            \<lparr>deleted := Some (timeline w (reads (after_query q w)))\<rparr>
                in fst (acknowledge q a w) = Inr (PlainObject new)
                 \<and> queue_docs (snd (acknowledge q a w)) = (queue_docs w)[i := new])"
      by (simp add: acknowledge_hit [OF up sel] Let_def)
    from i least res show ?thesis by blast
  qed
  have iff: "(\<exists>h. fst (acknowledge q a w) = Inr h) \<longleftrightarrow> (\<exists>d\<in>set (queue_docs w). ?P d)"
  proof
    assume ok: "\<exists>h. fst (acknowledge q a w) = Inr h"
    show "\<exists>d\<in>set (queue_docs w). ?P d"
    proof (rule ccontr)
      assume "\<not> (\<exists>d\<in>set (queue_docs w). ?P d)"
      then have "\<forall>d\<in>set (queue_docs w). \<not> ?P d" by blast
      from miss [OF this] ok show False by simp
    qed
  next
    assume "\<exists>d\<in>set (queue_docs w). ?P d"
    from hit [OF this] show "\<exists>h. fst (acknowledge q a w) = Inr h"
      by (auto simp: Let_def)
  qed
  have twice: "\<exists>e. fst (acknowledge q a (snd (acknowledge q a w))) = Inl e"
    if "sole_holder a (queue_docs w) \<and> mono (timeline w)"
    using that acknowledge_twice [OF up] by blast
  from iff miss hit twice show ?thesis by blast
qed

text \<open>
  C4 on the leased job: the first acknowledge of token \<open>a\<close> marks the job deleted at
  1005, the second is rejected with the not-found error.
\<close>

theorem acknowledge_iff_leased_witness:
  "fst (acknowledge built_queue ''a'' leased_world)
     = Inr (PlainObject (claimed_job\<lparr>deleted := Some 1005\<rparr>))
   \<and> fst (acknowledge built_queue ''a'' (snd (acknowledge built_queue ''a'' leased_world)))
     = Inl JobNotFound"
proof -
  have up: "\<not> outages leased_world (calls leased_world)"
    by (simp add: leased_world_def calm_world_def)
  have sole: "sole_holder ''a'' (queue_docs leased_world)"
    by (simp add: sole_holder_def leased_world_def)
  have mono: "mono (timeline leased_world)"
    by (simp add: leased_world_def calm_world_def mono_def)
  have match: "\<exists>d\<in>set (queue_docs leased_world).
                 leased built_queue ''a'' (timeline leased_world (reads leased_world)) d"
    by (simp add: leased_world_def calm_world_def claimed_job_def plain_job_def leased_def)
  from acknowledge_iff_leased [OF up, of built_queue "''a''"] sole mono match
  show ?thesis
    by (simp add: run_defs leased_world_def claimed_job_def)
qed

section \<open>checkout\<close>

text \<open>
  C2 (amended). When the store answers and some document is eligible (not deleted,
  \<open>visible\<close> not after the clock reading of the query): if the new deadline, the clock
  reading plus the visibility in ms (the argument, or the configured value when the
  argument is omitted or 0), is a valid date, the atomic step of \<open>checkout\<close> selects the
  eligible document with the least \<open>_id\<close> and rewrites exactly that document: \<open>ack\<close>
  becomes the next token of the generator, \<open>visible\<close> the new deadline, \<open>tries\<close> one more;
  the step resolves with the rewritten document, and that is what \<open>checkout\<close> returns
  whenever no dead queue is set or the new \<open>tries\<close> is within \<open>maxRetries\<close>. If the new
  deadline is not a valid date, \<open>checkout\<close> fails with the cast error and changes neither
  collection.
\<close>

theorem checkout_claims_oldest_eligible:
  assumes up: "\<not> outages w (calls w)"
    and some: "\<exists>d\<in>set (queue_docs w). eligible (timeline w (reads w)) d"
  shows "(valid_time (claim_deadline q v w) \<longrightarrow>
          (\<exists>i<length (queue_docs w).
             eligible (timeline w (reads w)) (queue_docs w ! i)
           \<and> (\<forall>k<length (queue_docs w). eligible (timeline w (reads w)) (queue_docs w ! k)
                 \<longrightarrow> oid (queue_docs w ! i) \<le> oid (queue_docs w ! k))
           \<and> (let old = queue_docs w ! i;
                   new = old\<lparr>ack := Some (hexes w (draws w)),
                             visible := claim_deadline q v w,
                             tries := tries old + 1\<rparr>;
                   step = checkout_findOneAndUpdate q (js_or v (visibility (options q))) w
               in fst step = Inr (Some (PlainObject new))
                \<and> queue_docs (snd step) = (queue_docs w)[i := new]
                \<and> dead_docs (snd step) = dead_docs w
                \<and> draws (snd step) = Suc (draws w)
                \<and> (deadQueueModel q = None \<or> tries new \<le> maxRetries (options q)
                      \<longrightarrow> checkout q v w = step))))
       \<and> (\<not> valid_time (claim_deadline q v w) \<longrightarrow>
            fst (checkout q v w) = Inl CastError
          \<and> queue_docs (snd (checkout q v w)) = queue_docs w
          \<and> dead_docs (snd (checkout q v w)) = dead_docs w)"
proof (cases "valid_time (claim_deadline q v w)")
  case False
  let ?vis = "js_or v (visibility (options q))"
  from False have "checkout_findOneAndUpdate q ?vis w = (Inl CastError, after_claim w)"
    by (simp add: checkout_findOneAndUpdate_cast claim_deadline_def)
  from checkout_reject [OF this] False show ?thesis by simp
next
  case True
  let ?P = "eligible (timeline w (reads w))"
  let ?vis = "js_or v (visibility (options q))"
  from True have valid: "valid_time (timeline w (Suc (reads w)) + ?vis * 1000)"
    by (simp add: claim_deadline_def)
  from some obtain i where sel: "select_index (checkout_options q) ?P (queue_docs w) = Some i"
    using select_index_ex [of "queue_docs w" ?P "checkout_options q"] by blast
  from select_index_Some [OF sel] have i: "i < length (queue_docs w)" "?P (queue_docs w ! i)"
    by simp_all
  have least: "\<forall>k<length (queue_docs w). ?P (queue_docs w ! k)
                 \<longrightarrow> oid (queue_docs w ! i) \<le> oid (queue_docs w ! k)"
    using select_index_least [OF _ sel] by (simp add: checkout_options_def)
  let ?new = "claim_update (hexes w (draws w)) (claim_deadline q v w) (queue_docs w ! i)"
  let ?w1 = "(after_claim w)\<lparr>calls := Suc (calls w), queue_docs := (queue_docs w)[i := ?new]\<rparr>"
  have step: "checkout_findOneAndUpdate q ?vis w = (Inr (Some (PlainObject ?new)), ?w1)"
    using checkout_findOneAndUpdate_hit [OF valid up sel]
    by (simp add: Let_def claim_deadline_def)
  have served: "checkout q v w = checkout_findOneAndUpdate q ?vis w"
    if "deadQueueModel q = None \<or> tries ?new \<le> maxRetries (options q)"
    using checkout_serve [OF step] that by (simp add: step)
  have res: "(let old = queue_docs w ! i;
                   new = old\<lparr>ack := Some (hexes w (draws w)),
                             visible := claim_deadline q v w,
                             tries := tries old + 1\<rparr>;
                   step = checkout_findOneAndUpdate q (js_or v (visibility (options q))) w
               in fst step = Inr (Some (PlainObject new))
                \<and> queue_docs (snd step) = (queue_docs w)[i := new]
                \<and> dead_docs (snd step) = dead_docs w
                \<and> draws (snd step) = Suc (draws w)
                \<and> (deadQueueModel q = None \<or> tries new \<le> maxRetries (options q)
                      \<longrightarrow> checkout q v w = step))"
    using served by (simp add: Let_def step claim_update_def)
  from True i least res show ?thesis by blast
qed

text \<open>
  The amended C2 on two fresh jobs: a checkout with visibility 90 claims the older one,
  under token \<open>a\<close>, until 1004 + 90000, and leaves the other as it was.
\<close>

theorem checkout_claims_oldest_eligible_witness:
  "fst (checkout built_queue (Some 90) stocked_world)
     = Inr (Some (PlainObject ((plain_job 0 (JStr ''One'') 91004)\<lparr>tries := 1, ack := Some ''a''\<rparr>)))
   \<and> queue_docs (snd (checkout built_queue (Some 90) stocked_world))
     = [(plain_job 0 (JStr ''One'') 91004)\<lparr>tries := 1, ack := Some ''a''\<rparr>,
        plain_job 1 (JStr ''Two'') 1000]"
proof -
  have up: "\<not> outages stocked_world (calls stocked_world)"
    by (simp add: stocked_world_def calm_world_def)
  have some: "\<exists>d\<in>set (queue_docs stocked_world).
                 eligible (timeline stocked_world (reads stocked_world)) d"
    by (simp add: stocked_world_def calm_world_def plain_job_def eligible_def)
  from checkout_claims_oldest_eligible [OF up some, where q = built_queue and v = "Some 90"]
  show ?thesis
    by (simp add: checkout.simps run_defs stocked_world_def eligible_def claim_deadline_def)
qed

text \<open>
  C2 as first stated (every such \<open>checkout\<close> claims the record) does not hold for every
  visibility: with two eligible jobs, a checkout asking for 8640000000000 s computes a
  deadline beyond the range of dates, fails with the cast error and claims nothing.
\<close>

theorem checkout_beyond_date_range_counterexample:
  "list_ex (eligible 1003) (queue_docs stocked_world)
   \<and> fst (checkout built_queue (Some 8640000000000) stocked_world) = Inl CastError
   \<and> queue_docs (snd (checkout built_queue (Some 8640000000000) stocked_world))
       = queue_docs stocked_world"
  by (simp add: checkout.simps run_defs stocked_world_def eligible_def)

text \<open>
  C3. The specification asks that on a queue with a dead queue configured \<open>checkout\<close>
  never returns a job whose \<open>tries\<close> exceeds \<open>maxRetries\<close> and moves such a job to the dead
  queue. Constructed with \<open>{deadQueue: 'dead'}\<close>, the queue object has no dead queue (the
  constructor drops the option, see C1) and \<open>maxRetries\<close> 5: after one \<open>add\<close> and five
  checkouts whose leases expired, the sixth \<open>checkout\<close> returns the job with \<open>tries\<close> 6
  and the dead queue stays empty.
\<close>

theorem configured_dead_queue_is_ignored:
  "constructor True ''queue'' [''deadQueue'' \<mapsto> JStr ''dead''] = Inr built_queue
   \<and> ((\<lambda>w. snd (checkout built_queue None w)) ^^ 5)
        (snd (add built_queue (JStr ''One'') None slow_world)) = turn 5
   \<and> fst (checkout built_queue None (turn 5))
       = Inr (Some (PlainObject
           \<lparr>oid = 0, payload = JStr ''One'', visible = 551000, tries = 6,
            ack = Some ''aaaaaa'', deleted = None, progress = None\<rparr>))
   \<and> dead_docs (snd (checkout built_queue None (turn 5))) = []"
proof -
  have built: "constructor True ''queue'' [''deadQueue'' \<mapsto> JStr ''dead''] = Inr built_queue"
    by (simp add: constructor_def built_queue_def buildModel_def default_options_def Let_def)
  have s: "snd (checkout built_queue None (turn k)) = turn (Suc k)" if "k < 10" for k
    using turn_step [OF that] by simp
  have five: "((\<lambda>w. snd (checkout built_queue None w)) ^^ 5)
                (snd (add built_queue (JStr ''One'') None slow_world)) = turn 5"
    by (simp add: turn_added numeral_nat s)
  have sixth: "checkout built_queue None (turn 5)
                 = (Inr (Some (PlainObject (hd (queue_docs (turn 6))))), turn 6)"
    using turn_step [of 5] by (simp add: numeral_nat)
  have job: "hd (queue_docs (turn 6))
               = \<lparr>oid = 0, payload = JStr ''One'', visible = 551000, tries = 6,
                  ack = Some ''aaaaaa'', deleted = None, progress = None\<rparr>"
    by (simp add: turn_def slow_world_def calm_world_def numeral_nat)
  have dead: "dead_docs (turn 6) = []"
    by (simp add: turn_def slow_world_def calm_world_def)
  from built five sixth job dead show ?thesis by simp
qed

section \<open>Deleted documents\<close>

text \<open>
  C8. None of \<open>add\<close>, \<open>checkout\<close>, \<open>peek\<close>, \<open>ping\<close> and \<open>acknowledge\<close> changes a document
  whose \<open>deleted\<close> is set: in both collections every such document is, after the call,
  the same document at the same place, whatever the arguments and whatever the store
  answers.
\<close>

theorem deleted_documents_are_never_touched:
  "frozen (queue_docs w) (queue_docs (snd (add q pl delayArg w)))
   \<and> frozen (dead_docs w) (dead_docs (snd (add q pl delayArg w)))
   \<and> frozen (queue_docs w) (queue_docs (snd (checkout q visibilityArg w)))
   \<and> frozen (dead_docs w) (dead_docs (snd (checkout q visibilityArg w)))
   \<and> frozen (queue_docs w) (queue_docs (snd (peek q w)))
   \<and> frozen (dead_docs w) (dead_docs (snd (peek q w)))
   \<and> frozen (queue_docs w) (queue_docs (snd (ping q a visibilityArg percentArg pl w)))
   \<and> frozen (dead_docs w) (dead_docs (snd (ping q a visibilityArg percentArg pl w)))
   \<and> frozen (queue_docs w) (queue_docs (snd (acknowledge q a w)))
   \<and> frozen (dead_docs w) (dead_docs (snd (acknowledge q a w)))"
  using add_frozen [of w q pl delayArg] checkout_frozen [of w q visibilityArg] peek_frozen [of q w]
    ping_frozen [of w q a visibilityArg percentArg pl] acknowledge_frozen [of w q a]
  by simp

text \<open>
  C8 on a collection whose first job has been acknowledged: after each of the five
  operations, \<open>ping\<close> and \<open>acknowledge\<close> under the job's own token included, the first
  document is still the acknowledged job.
\<close>

theorem deleted_documents_are_never_touched_witness:
  "queue_docs (snd (add built_queue (JStr ''Three'') None settled_world)) ! 0 = done_job
   \<and> queue_docs (snd (checkout built_queue None settled_world)) ! 0 = done_job
   \<and> queue_docs (snd (peek built_queue settled_world)) ! 0 = done_job
   \<and> queue_docs (snd (ping built_queue ''a'' None (Some 50) (JStr ''Three'') settled_world)) ! 0
       = done_job
   \<and> queue_docs (snd (acknowledge built_queue ''a'' settled_world)) ! 0 = done_job"
proof -
  have keep: "ds' ! 0 = done_job" if "frozen (queue_docs settled_world) ds'" for ds'
    using frozenD [OF that, of 0] by (simp add: settled_world_def done_job_def)
  note all = deleted_documents_are_never_touched
               [of settled_world built_queue "JStr ''Three''" None None "''a''" "Some 50"]
  from all have
    "frozen (queue_docs settled_world)
       (queue_docs (snd (add built_queue (JStr ''Three'') None settled_world)))"
    "frozen (queue_docs settled_world)
       (queue_docs (snd (checkout built_queue None settled_world)))"
    "frozen (queue_docs settled_world) (queue_docs (snd (peek built_queue settled_world)))"
    "frozen (queue_docs settled_world)
       (queue_docs (snd (ping built_queue ''a'' None (Some 50) (JStr ''Three'') settled_world)))"
    "frozen (queue_docs settled_world)
       (queue_docs (snd (acknowledge built_queue ''a'' settled_world)))"
    by simp_all
  then show ?thesis by (simp add: keep)
qed

end
